theory Spec2Isabelle
  imports Complex_Main
begin

section \<open>Tensors\<close>

text \<open>
  The source (\<^verbatim>\<open>torch_kinematics_tree/geometrics/utils.py\<close>) computes on torch tensors.
  A tensor is modelled by its shape and its elements in row-major order. Elements are
  real numbers: rounding and overflow of the floating point formats are not modelled.
  Where the floating point result of an operation is not a finite number (a division by
  zero, \<^verbatim>\<open>acos\<close> outside \<open>[-1, 1]\<close>) the model yields \<open>Inl NonFinite\<close>; this is
  not an exception of the program (which goes on with \<^verbatim>\<open>inf\<close> or \<^verbatim>\<open>nan\<close>), it marks
  a result outside the real numbers. The other errors are the exceptions Python raises.
\<close>

datatype error = IndexError | ValueError | TypeError | RuntimeError | NonFinite

datatype tensor = Tensor (shape: "nat list") (elems: "real list")

definition wf :: "tensor \<Rightarrow> bool" where
  "wf t = (length (elems t) = prod_list (shape t))"

text \<open>All multi-indices of a shape, in row-major order, and the offset of one of them.\<close>

fun indices :: "nat list \<Rightarrow> nat list list" where
  "indices [] = [[]]"
| "indices (n # s) = concat (map (\<lambda>i. map ((#) i) (indices s)) [0..<n])"

fun flat_index :: "nat list \<Rightarrow> nat list \<Rightarrow> nat" where
  "flat_index (n # s) (i # idx) = i * prod_list s + flat_index s idx"
| "flat_index _ _ = 0"

definition get :: "tensor \<Rightarrow> nat list \<Rightarrow> real" where
  "get t idx = elems t ! flat_index (shape t) idx"

definition build :: "nat list \<Rightarrow> (nat list \<Rightarrow> real) \<Rightarrow> tensor" where
  "build s f = Tensor s (map f (indices s))"

text \<open>Sequencing of fallible steps: the first error is the one raised.\<close>

definition ebind :: "error + 'a \<Rightarrow> ('a \<Rightarrow> error + 'b) \<Rightarrow> error + 'b" where
  "ebind x f = (case x of Inl e \<Rightarrow> Inl e | Inr v \<Rightarrow> f v)"

definition lift2 :: "('a \<Rightarrow> 'b \<Rightarrow> error + 'c) \<Rightarrow> error + 'a \<Rightarrow> error + 'b \<Rightarrow> error + 'c" where
  "lift2 f x y = ebind x (\<lambda>a. ebind y (\<lambda>b. f a b))"

text \<open>A dimension argument \<open>d\<close> of a tensor with \<open>n\<close> dimensions: negative values count
  from the end, anything outside \<open>[-n, n)\<close> raises.\<close>

definition wrap_dim :: "int \<Rightarrow> nat \<Rightarrow> error + nat" where
  "wrap_dim d n =
     (if - int n \<le> d \<and> d < int n then Inr (nat (if d < 0 then d + int n else d))
      else Inl IndexError)"

definition ndim :: "tensor \<Rightarrow> nat" where
  "ndim t = length (shape t)"

definition unsqueeze :: "int \<Rightarrow> tensor \<Rightarrow> error + tensor" where
  "unsqueeze d t =
     ebind (wrap_dim d (ndim t + 1))
       (\<lambda>p. Inr (Tensor (take p (shape t) @ [1] @ drop p (shape t)) (elems t)))"

definition squeeze :: "int \<Rightarrow> tensor \<Rightarrow> error + tensor" where
  "squeeze d t =
     ebind (wrap_dim d (max 1 (ndim t)))
       (\<lambda>p. Inr (if p < ndim t \<and> shape t ! p = 1
                  then Tensor (take p (shape t) @ drop (Suc p) (shape t)) (elems t)
                  else t))"

definition swap_at :: "nat \<Rightarrow> nat \<Rightarrow> 'a list \<Rightarrow> 'a list" where
  "swap_at i j xs = xs[i := xs ! j, j := xs ! i]"

definition transpose_t :: "int \<Rightarrow> int \<Rightarrow> tensor \<Rightarrow> error + tensor" where
  "transpose_t d0 d1 t =
     ebind (wrap_dim d0 (max 1 (ndim t))) (\<lambda>i.
     ebind (wrap_dim d1 (max 1 (ndim t))) (\<lambda>j.
       Inr (build (swap_at i j (shape t)) (\<lambda>idx. get t (swap_at i j idx)))))"

subsection \<open>Broadcasting\<close>

text \<open>Shapes are aligned at their last dimension; a dimension of size 1 stretches.\<close>

fun bc_rev :: "nat list \<Rightarrow> nat list \<Rightarrow> nat list option" where
  "bc_rev [] ys = Some ys"
| "bc_rev xs [] = Some xs"
| "bc_rev (x # xs) (y # ys) =
     (if x = y \<or> y = 1 then map_option ((#) x) (bc_rev xs ys)
      else if x = 1 then map_option ((#) y) (bc_rev xs ys)
      else None)"

definition broadcast_shapes :: "nat list \<Rightarrow> nat list \<Rightarrow> nat list option" where
  "broadcast_shapes a b = map_option rev (bc_rev (rev a) (rev b))"

text \<open>The index into a tensor of shape \<open>s\<close> that an index of the broadcast shape reads.\<close>

definition bidx :: "nat list \<Rightarrow> nat list \<Rightarrow> nat list" where
  "bidx s idx = map2 (\<lambda>n i. if n = 1 then 0 else i) s (drop (length idx - length s) idx)"

definition binop :: "(real \<Rightarrow> real \<Rightarrow> real) \<Rightarrow> tensor \<Rightarrow> tensor \<Rightarrow> error + tensor" where
  "binop f a b =
     (case broadcast_shapes (shape a) (shape b) of
        None \<Rightarrow> Inl RuntimeError
      | Some s \<Rightarrow>
          Inr (build s (\<lambda>idx. f (get a (bidx (shape a) idx)) (get b (bidx (shape b) idx)))))"

definition add :: "tensor \<Rightarrow> tensor \<Rightarrow> error + tensor" where
  "add = binop (+)"

definition sub :: "tensor \<Rightarrow> tensor \<Rightarrow> error + tensor" where
  "sub = binop (-)"

definition mul :: "tensor \<Rightarrow> tensor \<Rightarrow> error + tensor" where
  "mul = binop (*)"

definition divide_t :: "tensor \<Rightarrow> tensor \<Rightarrow> error + tensor" where
  "divide_t a b =
     (case broadcast_shapes (shape a) (shape b) of
        None \<Rightarrow> Inl RuntimeError
      | Some s \<Rightarrow>
          if list_all (\<lambda>idx. get b (bidx (shape b) idx) \<noteq> 0) (indices s)
          then Inr (build s (\<lambda>idx. get a (bidx (shape a) idx) / get b (bidx (shape b) idx)))
          else Inl NonFinite)"

text \<open>\<^verbatim>\<open>D += t\<close>: the sum is written into \<open>D\<close>, so it must have the shape of \<open>D\<close>.\<close>

definition iadd :: "tensor \<Rightarrow> tensor \<Rightarrow> error + tensor" where
  "iadd D t =
     (case broadcast_shapes (shape D) (shape t) of
        None \<Rightarrow> Inl RuntimeError
      | Some s \<Rightarrow> if s = shape D then add D t else Inl RuntimeError)"

text \<open>An operation with a Python number on one side keeps the shape of the tensor.\<close>

definition smap :: "(real \<Rightarrow> real) \<Rightarrow> tensor \<Rightarrow> tensor" where
  "smap f t = Tensor (shape t) (map f (elems t))"

definition neg :: "tensor \<Rightarrow> tensor" where
  "neg = smap uminus"

subsection \<open>Matrix product\<close>

text \<open>
  \<^verbatim>\<open>a @ b\<close> is \<^verbatim>\<open>torch.matmul\<close>: a one-dimensional first argument gets a dimension
  of size 1 prepended, a one-dimensional second argument gets one appended, the
  matrices in the last two dimensions are multiplied with the leading dimensions
  broadcast, and the added dimensions are removed from the result.
\<close>

definition matmul :: "tensor \<Rightarrow> tensor \<Rightarrow> error + tensor" where
  "matmul a b =
     (if ndim a = 0 \<or> ndim b = 0 then Inl RuntimeError
      else
        let sa = (if ndim a = 1 then 1 # shape a else shape a);
            sb = (if ndim b = 1 then shape b @ [1] else shape b);
            ba = butlast (butlast sa); n = last (butlast sa); m = last sa;
            bb = butlast (butlast sb); m' = last (butlast sb); p = last sb
        in if m \<noteq> m' then Inl RuntimeError
           else case broadcast_shapes ba bb of
                  None \<Rightarrow> Inl RuntimeError
                | Some bs \<Rightarrow>
                    Inr (Tensor
                      (bs @ (if ndim a = 1 then [] else [n]) @ (if ndim b = 1 then [] else [p]))
                      (elems (build (bs @ [n, p])
                         (\<lambda>idx. let c = take (length bs) idx;
                                    i = idx ! length bs;
                                    j = idx ! Suc (length bs)
                                in sum_list (map (\<lambda>k. get (Tensor sa (elems a)) (bidx ba c @ [i, k])
                                                     * get (Tensor sb (elems b)) (bidx bb c @ [k, j]))
                                             [0..<m]))))))"

subsection \<open>Reductions and slices\<close>

definition reduce_dim :: "(real list \<Rightarrow> real) \<Rightarrow> nat \<Rightarrow> tensor \<Rightarrow> tensor" where
  "reduce_dim g p t =
     (if shape t = [] then Tensor [] [g (elems t)]
      else build (take p (shape t) @ drop (Suc p) (shape t))
             (\<lambda>idx. g (map (\<lambda>k. get t (take p idx @ [k] @ drop p idx)) [0..<shape t ! p])))"

definition sum_dim :: "int \<Rightarrow> tensor \<Rightarrow> error + tensor" where
  "sum_dim d t = ebind (wrap_dim d (max 1 (ndim t))) (\<lambda>p. Inr (reduce_dim sum_list p t))"

text \<open>\<^verbatim>\<open>torch.linalg.norm(t, dim=d)\<close>: the Euclidean norm along one dimension.\<close>

definition norm2 :: "real list \<Rightarrow> real" where
  "norm2 xs = sqrt (sum_list (map (\<lambda>x. x * x) xs))"

definition linalg_norm :: "int \<Rightarrow> tensor \<Rightarrow> error + tensor" where
  "linalg_norm d t = ebind (wrap_dim d (max 1 (ndim t))) (\<lambda>p. Inr (reduce_dim norm2 p t))"

fun min_of :: "real list \<Rightarrow> real" where
  "min_of [] = 0"
| "min_of (x # xs) = fold min xs x"

fun max_of :: "real list \<Rightarrow> real" where
  "max_of [] = 0"
| "max_of (x # xs) = fold max xs x"

text \<open>\<^verbatim>\<open>t.min()\<close> and \<^verbatim>\<open>t.max()\<close> over all elements; an empty tensor raises.\<close>

definition min_all :: "tensor \<Rightarrow> error + tensor" where
  "min_all t = (if elems t = [] then Inl RuntimeError else Inr (Tensor [] [min_of (elems t)]))"

definition max_all :: "tensor \<Rightarrow> error + tensor" where
  "max_all t = (if elems t = [] then Inl RuntimeError else Inr (Tensor [] [max_of (elems t)]))"

text \<open>\<^verbatim>\<open>t.min(d)[0]\<close> and \<^verbatim>\<open>t.max(d)[0]\<close>: the values of the reduction along \<open>d\<close>.\<close>

definition min_dim :: "int \<Rightarrow> tensor \<Rightarrow> error + tensor" where
  "min_dim d t =
     ebind (wrap_dim d (max 1 (ndim t)))
       (\<lambda>p. if shape t \<noteq> [] \<and> shape t ! p = 0 then Inl IndexError
            else Inr (reduce_dim min_of p t))"

definition max_dim :: "int \<Rightarrow> tensor \<Rightarrow> error + tensor" where
  "max_dim d t =
     ebind (wrap_dim d (max 1 (ndim t)))
       (\<lambda>p. if shape t \<noteq> [] \<and> shape t ! p = 0 then Inl IndexError
            else Inr (reduce_dim max_of p t))"

text \<open>\<^verbatim>\<open>t[..., lo:]\<close> is \<open>slice_last lo None\<close>, \<^verbatim>\<open>t[..., :hi]\<close> is \<open>slice_last 0 (Some hi)\<close>.\<close>

definition slice_last :: "nat \<Rightarrow> nat option \<Rightarrow> tensor \<Rightarrow> error + tensor" where
  "slice_last lo hi t =
     (if shape t = [] then Inl IndexError
      else
        let n = last (shape t);
            l = min lo n;
            h = (case hi of None \<Rightarrow> n | Some k \<Rightarrow> min k n)
        in Inr (build (butlast (shape t) @ [h - l])
                  (\<lambda>idx. get t (butlast idx @ [last idx + l]))))"

text \<open>\<^verbatim>\<open>t[..., i, j]\<close>.\<close>

definition select2 :: "nat \<Rightarrow> nat \<Rightarrow> tensor \<Rightarrow> error + tensor" where
  "select2 i j t =
     (if ndim t < 2 then Inl IndexError
      else if i < last (butlast (shape t)) \<and> j < last (shape t)
      then Inr (build (butlast (butlast (shape t))) (\<lambda>idx. get t (idx @ [i, j])))
      else Inl IndexError)"

definition lift1 :: "('a \<Rightarrow> 'b) \<Rightarrow> error + 'a \<Rightarrow> error + 'b" where
  "lift1 f x = ebind x (\<lambda>a. Inr (f a))"

text \<open>\<^verbatim>\<open>torch.acos\<close>: outside \<open>[-1, 1]\<close> the float result is \<^verbatim>\<open>nan\<close>.\<close>

definition acos_l :: "real list \<Rightarrow> error + real list" where
  "acos_l xs = (if list_all (\<lambda>x. - 1 \<le> x \<and> x \<le> 1) xs then Inr (map arccos xs) else Inl NonFinite)"

definition acos_t :: "tensor \<Rightarrow> error + tensor" where
  "acos_t t = ebind (acos_l (elems t)) (\<lambda>ys. Inr (Tensor (shape t) ys))"

text \<open>Reading and writing through a boolean mask: \<^verbatim>\<open>x[mask]\<close> is the list of the selected
  elements in order, \<^verbatim>\<open>out[mask] = vals\<close> writes them back to the selected places.\<close>

definition masked_select :: "bool list \<Rightarrow> real list \<Rightarrow> real list" where
  "masked_select msk xs = map snd (filter fst (zip msk xs))"

fun masked_assign :: "bool list \<Rightarrow> real list \<Rightarrow> real list \<Rightarrow> real list" where
  "masked_assign (True # ms) (y # out) (v # vals) = v # masked_assign ms out vals"
| "masked_assign (False # ms) (y # out) vals = y # masked_assign ms out vals"
| "masked_assign _ out _ = out"

text \<open>\<^verbatim>\<open>torch.empty_like(x)\<close>: a tensor of the shape of \<open>x\<close> whose content is whatever the
  memory holds; the model fills it with zeros.\<close>

definition empty_like :: "tensor \<Rightarrow> tensor" where
  "empty_like x = Tensor (shape x) (map (\<lambda>_. 0) (elems x))"

section \<open>The functions of \<^verbatim>\<open>utils.py\<close>\<close>

definition DEFAULT_ACOS_BOUND :: real where
  "DEFAULT_ACOS_BOUND = 1 - 1 / 10000"

subsection \<open>Rigid transforms\<close>

text \<open>
  The three transform functions are compiled with \<^verbatim>\<open>@torch.jit.script\<close>: whatever is raised
  inside them reaches the caller as a \<^verbatim>\<open>RuntimeError\<close>. \<^verbatim>\<open>multiply_transform\<close> also changes
  an element type (\<^verbatim>\<open>l_trans_c.float()\<close>), so the arguments of these functions carry their
  element type: \<^verbatim>\<open>torch.matmul\<close> refuses operands of different element types, addition
  promotes them (a tensor without dimensions yields to one with dimensions).
\<close>

datatype dtype = Float32 | Float64

type_synonym dtensor = "dtype \<times> tensor"

definition scripted :: "error + 'a \<Rightarrow> error + 'a" where
  "scripted r =
     (case r of
        Inl e \<Rightarrow> Inl (if e = NonFinite then NonFinite else RuntimeError)
      | Inr v \<Rightarrow> Inr v)"

text \<open>\<^verbatim>\<open>t.float()\<close>.\<close>

definition float_d :: "dtensor \<Rightarrow> dtensor" where
  "float_d t = (Float32, snd t)"

definition result_type :: "dtensor \<Rightarrow> dtensor \<Rightarrow> dtype" where
  "result_type a b =
     (if (ndim (snd a) = 0) = (ndim (snd b) = 0)
      then (if fst a = Float64 \<or> fst b = Float64 then Float64 else Float32)
      else if ndim (snd a) = 0 then fst b else fst a)"

definition matmul_d :: "dtensor \<Rightarrow> dtensor \<Rightarrow> error + dtensor" where
  "matmul_d a b =
     (if fst a \<noteq> fst b then Inl RuntimeError
      else lift1 (Pair (fst a)) (matmul (snd a) (snd b)))"

definition add_d :: "dtensor \<Rightarrow> dtensor \<Rightarrow> error + dtensor" where
  "add_d a b = lift1 (Pair (result_type a b)) (add (snd a) (snd b))"

definition neg_d :: "dtensor \<Rightarrow> dtensor" where
  "neg_d a = (fst a, neg (snd a))"

definition unsqueeze_d :: "int \<Rightarrow> dtensor \<Rightarrow> error + dtensor" where
  "unsqueeze_d d a = lift1 (Pair (fst a)) (unsqueeze d (snd a))"

definition squeeze_d :: "int \<Rightarrow> dtensor \<Rightarrow> error + dtensor" where
  "squeeze_d d a = lift1 (Pair (fst a)) (squeeze d (snd a))"

definition transpose_d :: "int \<Rightarrow> int \<Rightarrow> dtensor \<Rightarrow> error + dtensor" where
  "transpose_d d0 d1 a = lift1 (Pair (fst a)) (transpose_t d0 d1 (snd a))"

definition multiply_transform ::
  "dtensor \<Rightarrow> dtensor \<Rightarrow> dtensor \<Rightarrow> dtensor \<Rightarrow> error + dtensor \<times> dtensor" where
  "multiply_transform w_rot_l w_trans_l l_rot_c l_trans_c =
     scripted
       (let l_trans_c = float_d l_trans_c in
        ebind (matmul_d w_rot_l l_rot_c) (\<lambda>w_rot_c.
        ebind (ebind (ebind (ebind (unsqueeze_d (- 1) l_trans_c) (matmul_d w_rot_l)) (squeeze_d (- 1)))
                 (\<lambda>v. add_d v w_trans_l)) (\<lambda>w_trans_c.
        Inr (w_rot_c, w_trans_c))))"

definition multiply_inv_transform ::
  "dtensor \<Rightarrow> dtensor \<Rightarrow> dtensor \<Rightarrow> dtensor \<Rightarrow> error + dtensor \<times> dtensor" where
  "multiply_inv_transform l_rot_w l_trans_w l_rot_c l_trans_c =
     scripted
       (ebind (transpose_d (- 1) (- 2) l_rot_w) (\<lambda>w_rot_l.
        ebind (matmul_d w_rot_l l_rot_c) (\<lambda>w_rot_c.
        ebind (lift1 neg_d (ebind (ebind (unsqueeze_d 2 l_trans_w) (matmul_d w_rot_l)) (squeeze_d 2)))
          (\<lambda>w_trans_l.
        ebind (ebind (ebind (ebind (unsqueeze_d (- 1) l_trans_c) (matmul_d w_rot_l)) (squeeze_d (- 1)))
                 (\<lambda>v. add_d v w_trans_l)) (\<lambda>w_trans_c.
        Inr (w_rot_c, w_trans_c))))))"

definition transform_point :: "dtensor \<Rightarrow> dtensor \<Rightarrow> dtensor \<Rightarrow> error + dtensor" where
  "transform_point point rot trans' =
     scripted
       (ebind (ebind (transpose_d (- 1) (- 2) rot) (matmul_d point)) (\<lambda>p. add_d p trans'))"

subsection \<open>MinMaxScaler\<close>

record MinMaxScaler =
  min_c :: "tensor option"
  max_c :: "tensor option"
  dim :: "int option"

text \<open>The argument of \<^verbatim>\<open>scale\<close> is a numpy array or a torch tensor.\<close>

datatype array = NdArray tensor | TorchTensor tensor

text \<open>\<^verbatim>\<open>X.min(axis)\<close> and \<^verbatim>\<open>X.max(axis)\<close> of numpy; \<^verbatim>\<open>axis=None\<close> reduces over everything.\<close>

definition np_min :: "int option \<Rightarrow> tensor \<Rightarrow> error + tensor" where
  "np_min axis x =
     (case axis of
        None \<Rightarrow> if elems x = [] then Inl ValueError else Inr (Tensor [] [min_of (elems x)])
      | Some d \<Rightarrow>
          ebind (wrap_dim d (max 1 (ndim x)))
            (\<lambda>p. if shape x \<noteq> [] \<and> shape x ! p = 0 then Inl ValueError
                 else Inr (reduce_dim min_of p x)))"

definition np_max :: "int option \<Rightarrow> tensor \<Rightarrow> error + tensor" where
  "np_max axis x =
     (case axis of
        None \<Rightarrow> if elems x = [] then Inl ValueError else Inr (Tensor [] [max_of (elems x)])
      | Some d \<Rightarrow>
          ebind (wrap_dim d (max 1 (ndim x)))
            (\<lambda>p. if shape x \<noteq> [] \<and> shape x ! p = 0 then Inl ValueError
                 else Inr (reduce_dim max_of p x)))"

text \<open>\<^verbatim>\<open>scale\<close> returns the scaled data and the instance with its bounds filled in.\<close>

definition scale :: "MinMaxScaler \<Rightarrow> array \<Rightarrow> error + tensor \<times> MinMaxScaler" where
  "scale self X =
     (case X of
        NdArray x \<Rightarrow>
          ebind (case min_c self of None \<Rightarrow> np_min (dim self) x | Some m \<Rightarrow> Inr m) (\<lambda>mn.
          ebind (case max_c self of None \<Rightarrow> np_max (dim self) x | Some m \<Rightarrow> Inr m) (\<lambda>mx.
          ebind (lift2 divide_t (sub x mn) (sub mx mn)) (\<lambda>X_scaled.
          Inr (X_scaled, self\<lparr>min_c := Some mn, max_c := Some mx\<rparr>))))
      | TorchTensor x \<Rightarrow>
          ebind (case min_c self of
                   None \<Rightarrow> (case dim self of None \<Rightarrow> min_all x | Some d \<Rightarrow> min_dim d x)
                 | Some m \<Rightarrow> Inr m) (\<lambda>mn.
          ebind (case max_c self of
                   None \<Rightarrow> (case max_c self of
                              None \<Rightarrow> max_all x
                            | Some _ \<Rightarrow> (case dim self of None \<Rightarrow> Inl TypeError | Some d \<Rightarrow> min_dim d x))
                 | Some m \<Rightarrow> Inr m) (\<lambda>mx.
          ebind (lift2 divide_t (sub x mn) (sub mx mn)) (\<lambda>X_scaled.
          Inr (X_scaled, self\<lparr>min_c := Some mn, max_c := Some mx\<rparr>)))))"

subsection \<open>Arccos with linear extrapolation\<close>

definition dacos_dx :: "real \<Rightarrow> error + real" where
  "dacos_dx x = (if 1 - x * x \<le> 0 then Inl NonFinite else Inr ((- 1) / sqrt (1 - x * x)))"

definition np_arccos :: "real \<Rightarrow> error + real" where
  "np_arccos x = (if - 1 \<le> x \<and> x \<le> 1 then Inr (arccos x) else Inl NonFinite)"

definition acos_linear_approximation :: "real list \<Rightarrow> real \<Rightarrow> error + real list" where
  "acos_linear_approximation x x0 =
     ebind (dacos_dx x0) (\<lambda>d.
     ebind (np_arccos x0) (\<lambda>a.
     Inr (map (\<lambda>v. (v - x0) * d + a) x)))"

definition acos_linear_extrapolation :: "tensor \<Rightarrow> real \<times> real \<Rightarrow> error + tensor" where
  "acos_linear_extrapolation x bounds =
     (let lower_bound = fst bounds; upper_bound = snd bounds in
      if lower_bound > upper_bound then Inl ValueError
      else if lower_bound \<le> - 1 \<or> upper_bound \<ge> 1 then Inl ValueError
      else
        let acos_extrap = elems (empty_like x);
            x_upper = map (\<lambda>v. v \<ge> upper_bound) (elems x);
            x_lower = map (\<lambda>v. v \<le> lower_bound) (elems x);
            x_mid = map2 (\<lambda>u l. \<not> u \<and> \<not> l) x_upper x_lower
        in
          ebind (acos_l (masked_select x_mid (elems x))) (\<lambda>a_mid.
          ebind (acos_linear_approximation (masked_select x_upper (elems x)) upper_bound) (\<lambda>a_upper.
          ebind (acos_linear_approximation (masked_select x_lower (elems x)) lower_bound) (\<lambda>a_lower.
          Inr (Tensor (shape x)
                 (masked_assign x_lower
                    (masked_assign x_upper (masked_assign x_mid acos_extrap a_mid) a_upper)
                    a_lower))))))"

subsection \<open>Rotation distances\<close>

definition quaternion_relative_angle :: "tensor \<Rightarrow> tensor \<Rightarrow> real \<Rightarrow> error + tensor" where
  "quaternion_relative_angle q1 q2 cos_bound =
     ebind (ebind (mul q1 q2) (sum_dim (- 1))) (\<lambda>theta_cos.
       if cos_bound > 0
       then let bound = 1 - cos_bound in acos_linear_extrapolation theta_cos (- bound, bound)
       else lift1 (smap (\<lambda>v. 2 * v)) (acos_t theta_cos))"

definition so3_rotation_angle :: "tensor \<Rightarrow> real \<Rightarrow> bool \<Rightarrow> real \<Rightarrow> error + tensor" where
  "so3_rotation_angle R eps cos_angle cos_bound =
     (if ndim R < 2 then Inl ValueError
      else
        let dim1 = last (butlast (shape R)); dim2 = last (shape R) in
        if dim1 \<noteq> 3 \<or> dim2 \<noteq> 3 then Inl ValueError
        else
          ebind (lift2 add (lift2 add (select2 0 0 R) (select2 1 1 R)) (select2 2 2 R)) (\<lambda>rot_trace.
          let phi_cos = smap (\<lambda>v. (v - 1) * (1 / 2)) rot_trace in
          if cos_angle then Inr phi_cos
          else if cos_bound > 0
          then let bound = 1 - cos_bound in acos_linear_extrapolation phi_cos (- bound, bound)
          else acos_t phi_cos))"

definition so3_relative_angle :: "tensor \<Rightarrow> tensor \<Rightarrow> real \<Rightarrow> bool \<Rightarrow> real \<Rightarrow> error + tensor" where
  "so3_relative_angle R1 R2 eps cos_angle cos_bound =
     ebind (ebind (transpose_t (- 2) (- 1) R2) (matmul R1)) (\<lambda>R12.
     so3_rotation_angle R12 eps cos_angle cos_bound)"

subsection \<open>Pose distances\<close>

definition euclidean_distance ::
  "tensor \<Rightarrow> tensor \<Rightarrow> tensor option \<Rightarrow> tensor option \<Rightarrow> real \<Rightarrow> real \<Rightarrow> real \<Rightarrow> real \<Rightarrow> bool \<Rightarrow> bool
     \<Rightarrow> error + tensor" where
  "euclidean_distance x_batch x_target vel_batch vel_target w_pos w_rot w_vpos w_vrot
       broadcast_target normalized_input =
     ebind (if ndim x_batch = 1 then unsqueeze 0 x_batch else Inr x_batch) (\<lambda>x_batch.
     ebind (if ndim x_target = 1 then unsqueeze 0 x_target else Inr x_target) (\<lambda>x_target.
     ebind (if broadcast_target then unsqueeze 1 x_target else Inr x_target) (\<lambda>x_target.
     let dim_scale_target = (if broadcast_target then - 3 else - 2) in
     ebind (if normalized_input
            then ebind (scale \<lparr>min_c = None, max_c = None, dim = Some (- 2)\<rparr> (TorchTensor x_batch)) (\<lambda>b.
                 ebind (scale \<lparr>min_c = None, max_c = None, dim = Some dim_scale_target\<rparr> (TorchTensor x_target)) (\<lambda>t.
                 Inr (fst b, fst t)))
            else Inr (x_batch, x_target)) (\<lambda>xs.
     ebind (ebind (sub (fst xs) (snd xs)) (linalg_norm (- 1))) (\<lambda>T_distance.
     ebind (case vel_batch of
              None \<Rightarrow> Inr (smap (\<lambda>v. w_pos * v) T_distance)
            | Some vel_batch \<Rightarrow>
               (case vel_target of
                  None \<Rightarrow> Inr (smap (\<lambda>v. w_pos * v) T_distance)
                | Some vel_target \<Rightarrow>
                    ebind (if ndim vel_target = 1 then unsqueeze 0 vel_target else Inr vel_target) (\<lambda>vel_target.
                    ebind (if broadcast_target then unsqueeze 1 vel_target else Inr vel_target) (\<lambda>vel_target.
                    ebind (if normalized_input
                           then ebind (scale \<lparr>min_c = None, max_c = None, dim = Some (- 2)\<rparr> (TorchTensor vel_batch)) (\<lambda>b.
                                ebind (scale \<lparr>min_c = None, max_c = None, dim = Some dim_scale_target\<rparr> (TorchTensor vel_target)) (\<lambda>t.
                                Inr (fst b, fst t)))
                           else Inr (vel_batch, vel_target)) (\<lambda>vs.
                    ebind (ebind (sub (fst vs) (snd vs)) (linalg_norm (- 1))) (\<lambda>V_distance.
                    iadd (smap (\<lambda>v. w_pos * v) T_distance) (smap (\<lambda>v. w_vpos * v) V_distance)))))))
       (\<lambda>D. Inr (smap (\<lambda>v. w_pos * v) T_distance)))))))"

definition R3S3_distance :: "tensor \<Rightarrow> tensor \<Rightarrow> real \<Rightarrow> real \<Rightarrow> error + tensor" where
  "R3S3_distance x_batch x_target w_pos w_rot =
     ebind (if ndim x_target = 1 then unsqueeze 0 x_target else Inr x_target) (\<lambda>x_target.
     ebind (lift2 (\<lambda>q1 q2. quaternion_relative_angle q1 q2 (1 / 10000))
              (slice_last 3 None x_batch) (slice_last 3 None x_target)) (\<lambda>R_distance.
     ebind (ebind (lift2 sub (slice_last 0 (Some 3) x_batch) (slice_last 0 (Some 3) x_target))
              (linalg_norm (- 1))) (\<lambda>T_distance.
     add (smap (\<lambda>v. w_pos * v) R_distance) (smap (\<lambda>v. w_rot * v) T_distance))))"

section \<open>Notions used in the statements\<close>

text \<open>An index is valid for a shape when it has one entry per dimension, each below the
  size of its dimension.\<close>

definition valid_index :: "nat list \<Rightarrow> nat list \<Rightarrow> bool" where
  "valid_index s idx = list_all2 (<) idx s"

text \<open>
  The contract of \<^verbatim>\<open>acos_linear_extrapolation\<close> in the words of the specification:
  \<open>arccos\<close> strictly inside the bounds, otherwise the first-order Taylor expansion
  \<open>(x - x0) * (- 1 / sqrt (1 - x0\<^sup>2)) + arccos x0\<close> at the nearest bound \<open>x0\<close>.
\<close>

definition acos_extrapolation_spec :: "real \<Rightarrow> real \<Rightarrow> real \<Rightarrow> real" where
  "acos_extrapolation_spec lo hi v =
     (if lo < v \<and> v < hi then arccos v
      else if v \<ge> hi then (v - hi) * (- 1 / sqrt (1 - hi\<^sup>2)) + arccos hi
      else (v - lo) * (- 1 / sqrt (1 - lo\<^sup>2)) + arccos lo)"

text \<open>A batch of quaternions (last dimension 4) all of whose members have norm 1.\<close>

definition unit_quaternions :: "tensor \<Rightarrow> bool" where
  "unit_quaternions q =
     list_all (\<lambda>idx. sum_list (map (\<lambda>k. get q (idx @ [k]) * get q (idx @ [k])) [0..<4]) = 1)
       (indices (butlast (shape q)))"

text \<open>A batch of 3x3 matrices whose rows are orthonormal: \<open>R R\<^sup>T = I\<close> for every member.\<close>

definition orthonormal :: "tensor \<Rightarrow> bool" where
  "orthonormal R =
     list_all (\<lambda>idx. list_all (\<lambda>i. list_all (\<lambda>j.
         sum_list (map (\<lambda>k. get R (idx @ [i, k]) * get R (idx @ [j, k])) [0..<3])
           = (if i = j then 1 else 0)) [0..<3]) [0..<3])
       (indices (butlast (butlast (shape R))))"

text \<open>The identity rotation and the zero translation, without batch dimension.\<close>

definition I3 :: tensor where
  "I3 = Tensor [3, 3] [1, 0, 0, 0, 1, 0, 0, 0, 1]"

definition Z3 :: tensor where
  "Z3 = Tensor [3] [0, 0, 0]"

section \<open>Row-major indexing\<close>

lemma length_concat_upt:
  "(\<And>k. k < n \<Longrightarrow> length (f k) = P) \<Longrightarrow> length (concat (map f [0..<n])) = n * P"
  by (induction n) simp_all

lemma nth_concat_upt:
  "(\<And>k. k < n \<Longrightarrow> length (f k) = P) \<Longrightarrow> i < n \<Longrightarrow> j < P \<Longrightarrow>
     concat (map f [0..<n]) ! (i * P + j) = f i ! j"
proof (induction n)
  case 0
  then show ?case by simp
next
  case (Suc n)
  have len: "length (concat (map f [0..<n])) = n * P"
    using Suc.prems(1) by (simp add: length_concat_upt)
  show ?case
  proof (cases "i < n")
    case True
    have "i * P + j < n * P"
    proof -
      have "i * P + j < i * P + P" using Suc.prems(3) by simp
      also have "\<dots> = Suc i * P" by simp
      also have "\<dots> \<le> n * P" using True by (intro mult_le_mono1) simp
      finally show ?thesis .
    qed
    then show ?thesis
      using Suc.IH[OF _ True Suc.prems(3)] Suc.prems(1) len by (simp add: nth_append)
  next
    case False
    then have "i = n" using Suc.prems(2) by simp
    then show ?thesis using len by (simp add: nth_append)
  qed
qed

lemma length_indices: "length (indices s) = prod_list s"
  by (induction s) (simp_all add: length_concat_upt)

lemma valid_index_Nil [simp]: "valid_index [] idx = (idx = [])"
  by (simp add: valid_index_def)

lemma valid_index_Cons:
  "valid_index (n # s) idx = (\<exists>i r. idx = i # r \<and> i < n \<and> valid_index s r)"
  by (cases idx) (auto simp: valid_index_def)

lemma valid_index_Cons_Cons [simp]:
  "valid_index (n # s) (i # r) = (i < n \<and> valid_index s r)"
  by (simp add: valid_index_def)

lemma set_indices: "set (indices s) = {idx. valid_index s idx}"
proof (induction s)
  case Nil
  then show ?case by auto
next
  case (Cons n s)
  show ?case
    by (auto simp: Cons valid_index_Cons)
qed

lemma flat_index_less: "valid_index s idx \<Longrightarrow> flat_index s idx < prod_list s"
proof (induction s arbitrary: idx)
  case Nil
  then show ?case by simp
next
  case (Cons n s)
  then obtain i r where idx: "idx = i # r" "i < n" "valid_index s r"
    by (auto simp: valid_index_Cons)
  have "i * prod_list s + flat_index s r < i * prod_list s + prod_list s"
    using Cons.IH[OF idx(3)] by simp
  also have "\<dots> = Suc i * prod_list s" by simp
  also have "\<dots> \<le> n * prod_list s" using idx(2) by (intro mult_le_mono1) simp
  finally show ?case using idx by simp
qed

lemma nth_indices: "valid_index s idx \<Longrightarrow> indices s ! flat_index s idx = idx"
proof (induction s arbitrary: idx)
  case Nil
  then show ?case by simp
next
  case (Cons n s)
  then obtain i r where idx: "idx = i # r" "i < n" "valid_index s r"
    by (auto simp: valid_index_Cons)
  have "concat (map (\<lambda>i. map ((#) i) (indices s)) [0..<n]) ! (i * prod_list s + flat_index s r)
        = map ((#) i) (indices s) ! flat_index s r"
    by (rule nth_concat_upt) (simp_all add: length_indices idx flat_index_less)
  then show ?case
    using idx Cons.IH[OF idx(3)] flat_index_less[OF idx(3)] by (simp add: length_indices)
qed

lemma get_build: "valid_index s idx \<Longrightarrow> get (build s f) idx = f idx"
  by (simp add: get_def build_def nth_indices flat_index_less length_indices)

lemma shape_build [simp]: "shape (build s f) = s"
  by (simp add: build_def)

lemma wf_build [simp]: "wf (build s f)"
  by (simp add: wf_def build_def length_indices)

lemma build_cong: "(\<And>idx. valid_index s idx \<Longrightarrow> f idx = g idx) \<Longrightarrow> build s f = build s g"
  by (simp add: build_def set_indices)

lemma flat_index_inj:
  "valid_index s a \<Longrightarrow> valid_index s b \<Longrightarrow> flat_index s a = flat_index s b \<Longrightarrow> a = b"
  by (metis nth_indices)

lemma concat_blocks_upt: "concat (map (\<lambda>i. map (\<lambda>j. i * P + j) [0..<P]) [0..<n]) = [0..<n * P]"
proof (induction n)
  case 0
  then show ?case by simp
next
  case (Suc n)
  have "map (\<lambda>j. n * P + j) [0..<P] = [n * P..<n * P + P]"
    by (simp add: map_add_upt add.commute)
  moreover have "[0..<n * P + P] = [0..<n * P] @ [n * P..<n * P + P]"
    by (metis le_add1 upt_add_eq_append zero_order(1))
  ultimately show ?case using Suc by (simp add: add.commute)
qed

lemma map_flat_index_indices: "map (flat_index s) (indices s) = [0..<prod_list s]"
proof (induction s)
  case Nil
  then show ?case by simp
next
  case (Cons n s)
  have "map (flat_index (n # s)) (indices (n # s))
        = concat (map (\<lambda>i. map (\<lambda>j. i * prod_list s + j) (map (flat_index s) (indices s))) [0..<n])"
    by (simp add: map_concat comp_def)
  then show ?case by (simp add: Cons concat_blocks_upt)
qed

lemma build_get: "wf t \<Longrightarrow> build (shape t) (get t) = t"
proof -
  assume w: "wf t"
  have "map (\<lambda>idx. elems t ! flat_index (shape t) idx) (indices (shape t))
        = map ((!) (elems t)) (map (flat_index (shape t)) (indices (shape t)))"
    by simp
  also have "\<dots> = map ((!) (elems t)) [0..<length (elems t)]"
    using w by (simp add: map_flat_index_indices wf_def)
  also have "\<dots> = elems t" by (rule map_nth)
  finally show ?thesis by (cases t) (simp add: build_def get_def[abs_def])
qed

section \<open>Evaluation on concrete tensors\<close>

lemmas tensor_eval =
  ebind_def lift1_def lift2_def wrap_dim_def ndim_def unsqueeze_def squeeze_def swap_at_def
  transpose_t_def broadcast_shapes_def bidx_def binop_def add_def sub_def mul_def divide_t_def
  iadd_def smap_def neg_def matmul_def reduce_dim_def sum_dim_def norm2_def
  linalg_norm_def min_all_def max_all_def min_dim_def max_dim_def slice_last_def select2_def
  acos_l_def acos_t_def masked_select_def
  empty_like_def get_def build_def upt_rec Let_def

lemmas dtensor_eval =
  scripted_def float_d_def result_type_def matmul_d_def add_d_def neg_d_def unsqueeze_d_def
  squeeze_d_def transpose_d_def

lemmas acos_eval =
  acos_linear_extrapolation_def acos_linear_approximation_def dacos_dx_def np_arccos_def

section \<open>Sequencing and elementwise operations\<close>

lemma ebind_Inr [simp]: "ebind (Inr v) f = f v"
  by (simp add: ebind_def)

lemma ebind_Inl [simp]: "ebind (Inl e) f = Inl e"
  by (simp add: ebind_def)

lemma lift1_Inr [simp]: "lift1 f (Inr a) = Inr (f a)"
  by (simp add: lift1_def)

lemma lift2_Inr [simp]: "lift2 f (Inr a) (Inr b) = f a b"
  by (simp add: lift2_def)

lemma bidx_valid: "valid_index s idx \<Longrightarrow> bidx s idx = idx"
proof -
  assume v: "valid_index s idx"
  then have len: "length idx = length s"
    by (simp add: valid_index_def list_all2_lengthD)
  have "list_all2 (<) idx s \<Longrightarrow> map2 (\<lambda>n i. if n = 1 then 0 else i) s idx = idx"
    by (induction rule: list_all2_induct) auto
  then show ?thesis using v len by (simp add: bidx_def valid_index_def)
qed

lemma bc_rev_same: "bc_rev xs xs = Some xs"
  by (induction xs) auto

lemma broadcast_shapes_same: "broadcast_shapes s s = Some s"
  by (simp add: broadcast_shapes_def bc_rev_same)

lemma binop_same_shape:
  "shape a = shape b \<Longrightarrow> binop f a b = Inr (build (shape a) (\<lambda>idx. f (get a idx) (get b idx)))"
  by (auto simp: binop_def broadcast_shapes_same bidx_valid intro: build_cong)

lemma binop_build:
  "binop f (build s g) (build s h) = Inr (build s (\<lambda>idx. f (g idx) (h idx)))"
  by (auto simp: binop_same_shape get_build intro: build_cong)

lemma smap_build: "smap f (build s g) = build s (\<lambda>idx. f (g idx))"
  by (simp add: smap_def build_def)

lemma valid_index_length: "valid_index s idx \<Longrightarrow> length idx = length s"
  by (simp add: valid_index_def list_all2_lengthD)

lemma valid_index_append:
  "length a = length s \<Longrightarrow> valid_index (s @ t) (a @ b) = (valid_index s a \<and> valid_index t b)"
  by (auto simp: valid_index_def list_all2_append)

lemma valid_index_snoc:
  "valid_index s idx \<Longrightarrow> k < n \<Longrightarrow> valid_index (s @ [n]) (idx @ [k])"
  by (simp add: valid_index_append valid_index_length)

lemma wrap_dim_m1: "0 < n \<Longrightarrow> wrap_dim (- 1) n = Inr (n - 1)"
  by (auto simp: wrap_dim_def nat_diff_distrib' intro!: nat_eq_iff[THEN iffD2])

lemma reduce_dim_last:
  "shape t = s @ [n] \<Longrightarrow>
     reduce_dim g (length s) t = build s (\<lambda>idx. g (map (\<lambda>k. get t (idx @ [k])) [0..<n]))"
  by (auto simp: reduce_dim_def valid_index_length intro!: build_cong)

lemma sum_dim_last:
  "shape t = s @ [n] \<Longrightarrow>
     sum_dim (- 1) t = Inr (build s (\<lambda>idx. sum_list (map (\<lambda>k. get t (idx @ [k])) [0..<n])))"
  by (simp add: sum_dim_def ndim_def wrap_dim_m1 ebind_def reduce_dim_last)

lemma linalg_norm_last:
  "shape t = s @ [n] \<Longrightarrow>
     linalg_norm (- 1) t = Inr (build s (\<lambda>idx. norm2 (map (\<lambda>k. get t (idx @ [k])) [0..<n])))"
  by (simp add: linalg_norm_def ndim_def wrap_dim_m1 ebind_def reduce_dim_last)

lemma elems_build_const: "build s (\<lambda>_. v) = Tensor s (replicate (prod_list s) v)"
  by (simp add: build_def map_replicate_const length_indices)

lemma dot_self:
  assumes "shape q = s @ [n]"
  shows "ebind (mul q q) (sum_dim (- 1))
     = Inr (build s (\<lambda>idx. sum_list (map (\<lambda>k. get q (idx @ [k]) * get q (idx @ [k])) [0..<n])))"
proof -
  have m: "mul q q = Inr (build (s @ [n]) (\<lambda>idx. get q idx * get q idx))"
    using assms by (simp add: mul_def binop_same_shape)
  have "build s (\<lambda>idx. sum_list (map (\<lambda>k. get (build (s @ [n]) (\<lambda>idx. get q idx * get q idx)) (idx @ [k])) [0..<n]))
      = build s (\<lambda>idx. sum_list (map (\<lambda>k. get q (idx @ [k]) * get q (idx @ [k])) [0..<n]))"
    by (intro build_cong arg_cong[where f=sum_list] map_cong refl) (simp add: get_build valid_index_snoc)
  then show ?thesis
    by (simp add: m ebind_def sum_dim_last[where s=s and n=n])
qed

lemma acos_t_build:
  "(\<And>idx. valid_index s idx \<Longrightarrow> - 1 \<le> f idx \<and> f idx \<le> 1) \<Longrightarrow>
     acos_t (build s f) = Inr (build s (\<lambda>idx. arccos (f idx)))"
  by (simp add: acos_t_def acos_l_def build_def list_all_iff set_indices ebind_def)

section \<open>Arccos with linear extrapolation\<close>

lemma masked_select_Cons:
  "masked_select (b # ms) (x # xs)
     = (if b then x # masked_select ms xs else masked_select ms xs)"
  by (simp add: masked_select_def)

lemma masked_select_Nil [simp]: "masked_select [] [] = []"
  by (simp add: masked_select_def)

lemma set_masked_select: "set (masked_select (map p xs) xs) = {x \<in> set xs. p x}"
  by (induction xs) (auto simp: masked_select_Cons)

lemma masked_assign_select:
  "length out = length xs \<Longrightarrow>
     masked_assign (map p xs) out (map f (masked_select (map p xs) xs))
       = map2 (\<lambda>x y. if p x then f x else y) xs out"
proof (induction xs arbitrary: out)
  case Nil
  then show ?case by simp
next
  case (Cons x xs)
  then obtain y ys where out: "out = y # ys" "length ys = length xs"
    by (cases out) auto
  show ?case
  proof (cases "p x")
    case True
    then show ?thesis using Cons.IH[OF out(2)] by (simp add: out masked_select_Cons)
  next
    case False
    then show ?thesis using Cons.IH[OF out(2)] by (simp add: out masked_select_Cons)
  qed
qed

lemma mid_mask: "map2 (\<lambda>u l. \<not> u \<and> \<not> l) (map f xs) (map g xs) = map (\<lambda>v. \<not> f v \<and> \<not> g v) xs"
  by (induction xs) auto

lemma map2_map_same: "map2 g xs (map h xs) = map (\<lambda>x. g x (h x)) xs"
  by (induction xs) auto

lemma acos_l_ok: "(\<And>x. x \<in> set xs \<Longrightarrow> - 1 \<le> x \<and> x \<le> 1) \<Longrightarrow> acos_l xs = Inr (map arccos xs)"
  by (simp add: acos_l_def list_all_iff)

lemma acos_linear_approximation_ok:
  "- 1 < x0 \<Longrightarrow> x0 < 1 \<Longrightarrow>
     acos_linear_approximation xs x0
       = Inr (map (\<lambda>v. (v - x0) * (- 1 / sqrt (1 - x0\<^sup>2)) + arccos x0) xs)"
proof -
  assume b: "- 1 < x0" "x0 < 1"
  then have "x0\<^sup>2 < 1"
    by (simp add: abs_square_less_1)
  then have "x0 * x0 < 1"
    by (simp add: power2_eq_square)
  then show ?thesis
    using b by (simp add: acos_linear_approximation_def dacos_dx_def np_arccos_def ebind_def power2_eq_square)
qed

lemma acos_linear_extrapolation_valid:
  assumes "lo \<le> hi" "- 1 < lo" "hi < 1"
  shows "acos_linear_extrapolation x (lo, hi)
           = Inr (Tensor (shape x) (map (acos_extrapolation_spec lo hi) (elems x)))"
proof -
  let ?xs = "elems x"
  let ?mid = "\<lambda>v. \<not> v \<ge> hi \<and> \<not> v \<le> lo"
  let ?U = "\<lambda>v. (v - hi) * (- 1 / sqrt (1 - hi\<^sup>2)) + arccos hi"
  let ?L = "\<lambda>v. (v - lo) * (- 1 / sqrt (1 - lo\<^sup>2)) + arccos lo"
  have mid: "map2 (\<lambda>u l. \<not> u \<and> \<not> l) (map (\<lambda>v. v \<ge> hi) ?xs) (map (\<lambda>v. v \<le> lo) ?xs) = map ?mid ?xs"
    by (rule mid_mask)
  have a_mid: "acos_l (masked_select (map ?mid ?xs) ?xs) = Inr (map arccos (masked_select (map ?mid ?xs) ?xs))"
    using assms by (intro acos_l_ok) (auto simp: set_masked_select)
  have a_up: "acos_linear_approximation (masked_select (map (\<lambda>v. v \<ge> hi) ?xs) ?xs) hi
      = Inr (map ?U (masked_select (map (\<lambda>v. v \<ge> hi) ?xs) ?xs))"
    using assms by (intro acos_linear_approximation_ok) auto
  have a_lo: "acos_linear_approximation (masked_select (map (\<lambda>v. v \<le> lo) ?xs) ?xs) lo
      = Inr (map ?L (masked_select (map (\<lambda>v. v \<le> lo) ?xs) ?xs))"
    using assms by (intro acos_linear_approximation_ok) auto
  have e1: "masked_assign (map ?mid ?xs) (map (\<lambda>_. 0) ?xs) (map arccos (masked_select (map ?mid ?xs) ?xs))
      = map (\<lambda>v. if ?mid v then arccos v else 0) ?xs"
    by (simp add: masked_assign_select map2_map_same)
  have e2: "masked_assign (map (\<lambda>v. v \<ge> hi) ?xs) (map (\<lambda>v. if ?mid v then arccos v else 0) ?xs)
        (map ?U (masked_select (map (\<lambda>v. v \<ge> hi) ?xs) ?xs))
      = map (\<lambda>v. if v \<ge> hi then ?U v else if ?mid v then arccos v else 0) ?xs"
    by (simp add: masked_assign_select map2_map_same)
  have e3: "masked_assign (map (\<lambda>v. v \<le> lo) ?xs)
        (map (\<lambda>v. if v \<ge> hi then ?U v else if ?mid v then arccos v else 0) ?xs)
        (map ?L (masked_select (map (\<lambda>v. v \<le> lo) ?xs) ?xs))
      = map (\<lambda>v. if v \<le> lo then ?L v else if v \<ge> hi then ?U v else if ?mid v then arccos v else 0) ?xs"
    by (simp add: masked_assign_select map2_map_same)
  have fin: "(\<lambda>v. if v \<le> lo then ?L v else if v \<ge> hi then ?U v else if ?mid v then arccos v else 0)
      = acos_extrapolation_spec lo hi"
  proof
    fix v
    show "(if v \<le> lo then ?L v else if v \<ge> hi then ?U v else if ?mid v then arccos v else 0)
        = acos_extrapolation_spec lo hi v"
    proof (cases "v \<le> lo \<and> hi \<le> v")
      case True
      with assms have "lo = hi" by simp
      with True show ?thesis by (simp add: acos_extrapolation_spec_def)
    next
      case False
      then show ?thesis using assms by (auto simp: acos_extrapolation_spec_def)
    qed
  qed
  have nb: "\<not> lo > hi" "\<not> (lo \<le> - 1 \<or> hi \<ge> 1)"
    using assms by auto
  show ?thesis
    unfolding acos_linear_extrapolation_def Let_def fst_conv snd_conv empty_like_def tensor.sel
      mid a_mid a_up a_lo ebind_def sum.case e1 e2 e3 fin
    using nb by simp
qed

lemma acos_extrapolation_spec_continuous:
  assumes "lo \<le> hi" "- 1 < lo" "hi < 1"
  shows "continuous_on UNIV (acos_extrapolation_spec lo hi)"
proof -
  let ?U = "\<lambda>v. (v - hi) * (- 1 / sqrt (1 - hi\<^sup>2)) + arccos hi"
  let ?L = "\<lambda>v. (v - lo) * (- 1 / sqrt (1 - lo\<^sup>2)) + arccos lo"
  have out: "continuous_on ({hi..} \<union> {..lo}) (\<lambda>v. if v \<ge> hi then ?U v else ?L v)"
  proof (rule continuous_on_If)
    show "continuous_on {hi..} ?U" by (intro continuous_intros)
    show "continuous_on {..lo} ?L" by (intro continuous_intros)
    show "?U v = ?L v" if "v \<in> {..lo}" "hi \<le> v" for v
    proof -
      from that assms have "lo = hi" by simp
      then show ?thesis by simp
    qed
  qed auto
  have inner: "continuous_on {lo..hi} arccos"
    using assms by (intro continuous_on_subset[OF continuous_on_arccos']) auto
  have c: "continuous_on ({lo..hi} \<union> ({hi..} \<union> {..lo}))
          (\<lambda>v. if lo < v \<and> v < hi then arccos v else (if v \<ge> hi then ?U v else ?L v))"
  proof (rule continuous_on_If)
    show "continuous_on {lo..hi} arccos" by (rule inner)
    show "continuous_on ({hi..} \<union> {..lo}) (\<lambda>v. if v \<ge> hi then ?U v else ?L v)" by (rule out)
    show "arccos v = (if v \<ge> hi then ?U v else ?L v)" if "v \<in> {lo..hi}" "\<not> (lo < v \<and> v < hi)" for v
    proof (cases "v \<ge> hi")
      case True
      with that have "v = hi" by simp
      then show ?thesis by simp
    next
      case False
      with that have "v = lo" by auto
      with False show ?thesis by simp
    qed
    show "closed ({hi..} \<union> {..lo})" by (intro closed_Un) auto
  qed auto
  have un: "{lo..hi} \<union> ({hi..} \<union> {..lo}) = UNIV" by auto
  have eq: "(\<lambda>v. if lo < v \<and> v < hi then arccos v else (if v \<ge> hi then ?U v else ?L v))
     = acos_extrapolation_spec lo hi"
    by (rule ext) (simp add: acos_extrapolation_spec_def)
  from c show ?thesis unfolding un eq .
qed

lemma acos_linear_extrapolation_invalid:
  "lo > hi \<or> lo \<le> - 1 \<or> hi \<ge> 1 \<Longrightarrow> acos_linear_extrapolation x (lo, hi) = Inl ValueError"
  by (auto simp: acos_linear_extrapolation_def)

lemma extrapolation_at_one_pos:
  assumes "0 < b" "b < 1"
  shows "0 < (1 - b) * (- 1 / sqrt (1 - b\<^sup>2)) + arccos b"
proof -
  have b2: "b\<^sup>2 < b" using assms by (simp add: power2_eq_square)
  then have pos: "0 < 1 - b\<^sup>2" using assms by simp
  then have s: "0 < sqrt (1 - b\<^sup>2)" by simp
  have "sin (arccos b) \<le> arccos b"
    using assms by (intro sin_x_le_x arccos_lbound) auto
  then have ge: "sqrt (1 - b\<^sup>2) \<le> arccos b"
    using assms by (simp add: sin_arccos)
  have "(1 - b) / sqrt (1 - b\<^sup>2) < sqrt (1 - b\<^sup>2)"
  proof -
    have "1 - b < sqrt (1 - b\<^sup>2) * sqrt (1 - b\<^sup>2)"
      using pos b2 by simp
    then show ?thesis using s by (simp add: pos_divide_less_eq)
  qed
  then show ?thesis using ge by (simp add: field_simps)
qed

text \<open>
  C6. For a valid bound pair, \<^verbatim>\<open>acos_linear_extrapolation\<close> returns, element by element,
  \<open>arccos\<close> strictly inside the bounds and the first-order Taylor expansion at the nearest
  bound outside (at \<open>hi\<close> from \<open>hi\<close> on, at \<open>lo\<close> up to \<open>lo\<close>); the result agrees with
  \<open>arccos\<close> strictly inside the bounds and at the two bounds, and is continuous there.
\<close>

theorem acos_linear_extrapolation_contract:
  assumes "lo \<le> hi" "- 1 < lo" "hi < 1"
  shows "acos_linear_extrapolation x (lo, hi)
           = Inr (Tensor (shape x) (map (acos_extrapolation_spec lo hi) (elems x)))
       \<and> (\<forall>v. lo < v \<and> v < hi \<longrightarrow> acos_extrapolation_spec lo hi v = arccos v)
       \<and> acos_extrapolation_spec lo hi lo = arccos lo
       \<and> acos_extrapolation_spec lo hi hi = arccos hi
       \<and> isCont (acos_extrapolation_spec lo hi) lo
       \<and> isCont (acos_extrapolation_spec lo hi) hi"
proof -
  have "\<forall>v\<in>UNIV. isCont (acos_extrapolation_spec lo hi) v"
    using acos_extrapolation_spec_continuous[OF assms]
    by (simp add: continuous_on_eq_continuous_at)
  moreover have "acos_extrapolation_spec lo hi lo = arccos lo"
    using assms by (auto simp: acos_extrapolation_spec_def)
  moreover have "acos_extrapolation_spec lo hi hi = arccos hi"
    by (simp add: acos_extrapolation_spec_def)
  ultimately show ?thesis
    using acos_linear_extrapolation_valid[OF assms, of x]
    by (simp add: acos_extrapolation_spec_def)
qed

theorem acos_linear_extrapolation_contract_witness:
  "(- 1 / 2 :: real) \<le> 1 / 2 \<and> - 1 < (- 1 / 2 :: real) \<and> (1 / 2 :: real) < 1
   \<and> acos_linear_extrapolation (Tensor [3] [0, 1, - 1]) (- 1 / 2, 1 / 2)
       = Inr (Tensor [3] [arccos 0,
                          (1 - 1 / 2) * (- 1 / sqrt (1 - (1 / 2)\<^sup>2)) + arccos (1 / 2),
                          (- 1 - (- 1 / 2)) * (- 1 / sqrt (1 - (- 1 / 2)\<^sup>2)) + arccos (- 1 / 2)])
   \<and> isCont (acos_extrapolation_spec (- 1 / 2) (1 / 2)) (- 1 / 2)
   \<and> isCont (acos_extrapolation_spec (- 1 / 2) (1 / 2)) (1 / 2)"
  using acos_linear_extrapolation_contract[of "- 1 / 2" "1 / 2" "Tensor [3] [0, 1, - 1]"]
  by (simp add: acos_extrapolation_spec_def)

text \<open>
  C7. \<^verbatim>\<open>acos_linear_extrapolation\<close> raises its bounds error (a \<^verbatim>\<open>ValueError\<close>) exactly when
  \<open>lower > upper\<close> or the two bounds are not both strictly inside \<open>(-1, 1)\<close>; for every
  other bound pair it returns a tensor.
\<close>

theorem acos_linear_extrapolation_raises_iff:
  "((acos_linear_extrapolation x (lower, upper) = Inl ValueError)
      = (lower > upper \<or> \<not> (- 1 < lower \<and> lower < 1 \<and> - 1 < upper \<and> upper < 1)))
   \<and> ((\<exists>y. acos_linear_extrapolation x (lower, upper) = Inr y)
      = (lower \<le> upper \<and> - 1 < lower \<and> lower < 1 \<and> - 1 < upper \<and> upper < 1))"
proof (cases "lower \<le> upper \<and> - 1 < lower \<and> upper < 1")
  case True
  then have "acos_linear_extrapolation x (lower, upper)
      = Inr (Tensor (shape x) (map (acos_extrapolation_spec lower upper) (elems x)))"
    by (intro acos_linear_extrapolation_valid) auto
  then show ?thesis using True by auto
next
  case False
  then have "acos_linear_extrapolation x (lower, upper) = Inl ValueError"
    by (intro acos_linear_extrapolation_invalid) auto
  then show ?thesis using False by auto
qed

theorem acos_linear_extrapolation_raises_iff_witness:
  "acos_linear_extrapolation (Tensor [1] [0]) (1 / 2, - 1 / 2) = Inl ValueError
   \<and> acos_linear_extrapolation (Tensor [1] [0]) (- 1, 1 / 2) = Inl ValueError
   \<and> (\<exists>y. acos_linear_extrapolation (Tensor [1] [0]) (- 1 / 2, 1 / 2) = Inr y)"
  using acos_linear_extrapolation_raises_iff[of "Tensor [1] [0]" "1 / 2" "- 1 / 2"]
    acos_linear_extrapolation_raises_iff[of "Tensor [1] [0]" "- 1" "1 / 2"]
    acos_linear_extrapolation_raises_iff[of "Tensor [1] [0]" "- 1 / 2" "1 / 2"]
  by simp

section \<open>The angle between a quaternion and itself\<close>

lemma theta_cos_self:
  assumes "shape q = s @ [4]" "unit_quaternions q"
  shows "ebind (mul q q) (sum_dim (- 1)) = Inr (build s (\<lambda>_. 1))"
proof -
  have "build s (\<lambda>idx. sum_list (map (\<lambda>k. get q (idx @ [k]) * get q (idx @ [k])) [0..<4]))
      = build s (\<lambda>_. 1)"
    using assms by (intro build_cong) (simp add: unit_quaternions_def list_all_iff set_indices)
  then show ?thesis
    using dot_self[OF assms(1)] by simp
qed

lemma quaternion_relative_angle_self_extrapolated:
  assumes "shape q = s @ [4]" "unit_quaternions q" "0 < cb" "cb \<le> 1"
  shows "quaternion_relative_angle q q cb
     = Inr (Tensor s (replicate (prod_list s)
              ((1 - (1 - cb)) * (- 1 / sqrt (1 - (1 - cb)\<^sup>2)) + arccos (1 - cb))))"
proof -
  have ext: "acos_linear_extrapolation (Tensor s (replicate (prod_list s) 1)) (- (1 - cb), 1 - cb)
      = Inr (Tensor s (map (acos_extrapolation_spec (- (1 - cb)) (1 - cb)) (replicate (prod_list s) 1)))"
    using assms(3,4)
      acos_linear_extrapolation_valid[of "- (1 - cb)" "1 - cb" "Tensor s (replicate (prod_list s) 1)"]
    by simp
  have v: "acos_extrapolation_spec (- (1 - cb)) (1 - cb) 1
      = (1 - (1 - cb)) * (- 1 / sqrt (1 - (1 - cb)\<^sup>2)) + arccos (1 - cb)"
    using assms(3,4) by (simp add: acos_extrapolation_spec_def)
  have "quaternion_relative_angle q q cb
      = acos_linear_extrapolation (Tensor s (replicate (prod_list s) 1)) (- (1 - cb), 1 - cb)"
    using assms(3)
    by (simp add: quaternion_relative_angle_def theta_cos_self[OF assms(1,2)] Let_def elems_build_const)
  also have "\<dots> = Inr (Tensor s (map (acos_extrapolation_spec (- (1 - cb)) (1 - cb))
                                  (replicate (prod_list s) 1)))"
    by (rule ext)
  also have "\<dots> = Inr (Tensor s (replicate (prod_list s)
              ((1 - (1 - cb)) * (- 1 / sqrt (1 - (1 - cb)\<^sup>2)) + arccos (1 - cb))))"
    by (simp only: map_replicate v)
  finally show ?thesis .
qed

lemma quaternion_relative_angle_self_exact:
  assumes "shape q = s @ [4]" "unit_quaternions q" "cb \<le> 0"
  shows "quaternion_relative_angle q q cb = Inr (Tensor s (replicate (prod_list s) 0))"
proof -
  have "quaternion_relative_angle q q cb = lift1 (smap (\<lambda>v. 2 * v)) (acos_t (build s (\<lambda>_. 1)))"
    using assms(3) by (simp add: quaternion_relative_angle_def theta_cos_self[OF assms(1,2)])
  also have "\<dots> = Inr (build s (\<lambda>_. 0))"
    by (simp add: acos_t_build smap_build)
  finally show ?thesis by (simp only: elems_build_const)
qed

lemma unit_1000: "unit_quaternions (Tensor [4] [1, 0, 0, 0])"
  by (simp add: unit_quaternions_def get_def upt_rec)

text \<open>
  C4 (amended). The claim has \<^verbatim>\<open>quaternion_relative_angle\<close> return exactly 0 on two
  identical unit quaternions under the default arguments. With the default
  \<open>cos_bound = 1e-4\<close> the dot product 1 is not below the upper bound \<open>b = 1 - 1e-4\<close>, so the
  result is the linear extrapolation at \<open>b\<close>, \<open>arccos b - (1 - b) / sqrt (1 - b\<^sup>2)\<close>, which is
  strictly positive. The result is exactly 0 when \<open>cos_bound \<le> 0\<close>, where the function
  returns \<open>2 * arccos\<close> of the dot product. Both hold for every batch of unit quaternions.
\<close>

theorem quaternion_relative_angle_identical:
  assumes "shape q = s @ [4]" "unit_quaternions q"
  shows "quaternion_relative_angle q q (1 / 10000)
           = Inr (Tensor s (replicate (prod_list s)
                   (arccos (9999 / 10000) - (1 / 10000) / sqrt (1 - (9999 / 10000)\<^sup>2))))
       \<and> 0 < arccos (9999 / 10000) - (1 / 10000) / sqrt (1 - (9999 / 10000 :: real)\<^sup>2)
       \<and> (\<forall>cb. cb \<le> 0 \<longrightarrow>
             quaternion_relative_angle q q cb = Inr (Tensor s (replicate (prod_list s) 0)))"
proof -
  have "quaternion_relative_angle q q (1 / 10000)
     = Inr (Tensor s (replicate (prod_list s)
              ((1 - (1 - 1 / 10000)) * (- 1 / sqrt (1 - (1 - 1 / 10000)\<^sup>2)) + arccos (1 - 1 / 10000))))"
    by (rule quaternion_relative_angle_self_extrapolated[OF assms]) simp_all
  moreover have "(1 - (1 - 1 / 10000)) * (- 1 / sqrt (1 - (1 - 1 / 10000)\<^sup>2)) + arccos (1 - 1 / 10000)
     = arccos (9999 / 10000) - (1 / 10000) / sqrt (1 - (9999 / 10000 :: real)\<^sup>2)"
    by simp
  moreover have "0 < (1 - (9999 / 10000)) * (- 1 / sqrt (1 - (9999 / 10000 :: real)\<^sup>2)) + arccos (9999 / 10000)"
    by (rule extrapolation_at_one_pos) simp_all
  then have "0 < arccos (9999 / 10000) - (1 / 10000) / sqrt (1 - (9999 / 10000 :: real)\<^sup>2)"
    by simp
  ultimately show ?thesis
    using quaternion_relative_angle_self_exact[OF assms] by simp
qed

theorem quaternion_relative_angle_identical_witness:
  "shape (Tensor [4] [1, 0, 0, 0]) = [] @ [4] \<and> unit_quaternions (Tensor [4] [1, 0, 0, 0])
   \<and> quaternion_relative_angle (Tensor [4] [1, 0, 0, 0]) (Tensor [4] [1, 0, 0, 0]) (1 / 10000)
       = Inr (Tensor [] [arccos (9999 / 10000) - (1 / 10000) / sqrt (1 - (9999 / 10000)\<^sup>2)])
   \<and> quaternion_relative_angle (Tensor [4] [1, 0, 0, 0]) (Tensor [4] [1, 0, 0, 0]) 0
       = Inr (Tensor [] [0])"
  using quaternion_relative_angle_identical[of "Tensor [4] [1, 0, 0, 0]" "[]"] unit_1000
  by simp

text \<open>The claim as stated fails at \<open>q1 = q2 = [1, 0, 0, 0]\<close> with the default bound.\<close>

theorem quaternion_relative_angle_identical_not_zero:
  "quaternion_relative_angle (Tensor [4] [1, 0, 0, 0]) (Tensor [4] [1, 0, 0, 0]) (1 / 10000)
     \<noteq> Inr (Tensor [] [0])"
proof -
  have "quaternion_relative_angle (Tensor [4] [1, 0, 0, 0]) (Tensor [4] [1, 0, 0, 0]) (1 / 10000)
     = Inr (Tensor [] (replicate (prod_list [])
              ((1 - (1 - 1 / 10000)) * (- 1 / sqrt (1 - (1 - 1 / 10000)\<^sup>2)) + arccos (1 - 1 / 10000))))"
    by (rule quaternion_relative_angle_self_extrapolated) (simp_all add: unit_1000)
  moreover have "0 < (1 - (9999 / 10000)) * (- 1 / sqrt (1 - (9999 / 10000 :: real)\<^sup>2)) + arccos (9999 / 10000)"
    by (rule extrapolation_at_one_pos) simp_all
  ultimately show ?thesis by simp
qed

section \<open>Elementwise operations on tensors of one shape\<close>

lemma mul_build: "mul (build s g) (build s h) = Inr (build s (\<lambda>idx. g idx * h idx))"
  by (simp add: mul_def binop_build)

lemma add_build: "add (build s g) (build s h) = Inr (build s (\<lambda>idx. g idx + h idx))"
  by (simp add: add_def binop_build)

lemma sub_build: "sub (build s g) (build s h) = Inr (build s (\<lambda>idx. g idx - h idx))"
  by (simp add: sub_def binop_build)

section \<open>Broadcasting, transposition and the matrix product\<close>

lemma bc_rev_commute: "bc_rev xs ys = bc_rev ys xs"
proof (induction xs ys rule: bc_rev.induct)
  case (1 ys)
  then show ?case by (cases ys) auto
next
  case (2 v va)
  then show ?case by simp
next
  case (3 x xs y ys)
  then show ?case by auto
qed

lemma broadcast_shapes_commute: "broadcast_shapes a b = broadcast_shapes b a"
  by (simp add: broadcast_shapes_def bc_rev_commute)

lemma bc_rev_length: "bc_rev ra rb = Some rs \<Longrightarrow> length rs = max (length ra) (length rb)"
proof (induction ra rb arbitrary: rs rule: bc_rev.induct)
  case (1 ys)
  then show ?case by simp
next
  case (2 v va)
  then show ?case by simp
next
  case (3 x xs y ys)
  then show ?case by (auto split: if_splits)
qed

lemma clamp_valid:
  "list_all2 (<) rc ra \<Longrightarrow> list_all2 (<) (map2 (\<lambda>n i. if n = 1 then 0 else i) ra rc) (ra :: nat list)"
  by (induction rule: list_all2_induct) auto

lemma bc_rev_valid:
  "bc_rev ra rb = Some rs \<Longrightarrow> list_all2 (<) rc rs \<Longrightarrow>
     list_all2 (<) (map2 (\<lambda>n i. if n = 1 then 0 else i) ra (take (length ra) rc)) ra"
proof (induction ra rb arbitrary: rs rc rule: bc_rev.induct)
  case (1 ys)
  then show ?case by simp
next
  case (2 v va)
  then have "list_all2 (<) rc (v # va)" by simp
  moreover from this have "length rc = length (v # va)" by (rule list_all2_lengthD)
  ultimately show ?case using clamp_valid[of rc "v # va"] by simp
next
  case (3 x xs y ys)
  from "3.prems"(1) obtain z rs' where rs: "rs = z # rs'" "bc_rev xs ys = Some rs'"
    and z: "x = 1 \<or> z = x"
    by (auto split: if_splits)
  from "3.prems"(2) rs obtain c rc' where rc: "rc = c # rc'" "c < z" "list_all2 (<) rc' rs'"
    by (auto simp: list_all2_Cons2)
  have tl: "list_all2 (<) (map2 (\<lambda>n i. if n = 1 then 0 else i) xs (take (length xs) rc')) xs"
  proof (cases "x = y \<or> y = 1")
    case True
    show ?thesis by (rule "3.IH"(1)[OF True rs(2) rc(3)])
  next
    case False
    with "3.prems"(1) have x1: "x = 1" by (auto split: if_splits)
    show ?thesis by (rule "3.IH"(2)[OF False x1 rs(2) rc(3)])
  qed
  show ?case using z rc(2) tl unfolding rc(1) by auto
qed

lemma bidx_broadcast_valid:
  assumes "broadcast_shapes a b = Some bs" "valid_index bs c"
  shows "valid_index a (bidx a c)"
proof -
  let ?f = "\<lambda>n i. if n = (1::nat) then (0::nat) else i"
  from assms(1) obtain rs where rs: "bc_rev (rev a) (rev b) = Some rs" "bs = rev rs"
    by (auto simp: broadcast_shapes_def)
  have lc: "length c = length bs"
    using assms(2) by (rule valid_index_length)
  have la: "length a \<le> length c"
    using bc_rev_length[OF rs(1)] rs(2) lc by simp
  have "list_all2 (<) c (rev rs)"
    using assms(2) rs(2) by (simp add: valid_index_def)
  then have "list_all2 (<) (rev c) (rev (rev rs))"
    by (simp only: list_all2_rev)
  then have rc: "list_all2 (<) (rev c) rs"
    by simp
  have *: "list_all2 (<) (map2 ?f (rev a) (take (length (rev a)) (rev c))) (rev a)"
    by (rule bc_rev_valid[OF rs(1) rc])
  have ld: "length (drop (length c - length a) c) = length a"
    using la by simp
  have rd: "rev (drop (length c - length a) c) = take (length a) (rev c)"
    using la by (simp add: rev_drop)
  have "rev (zip a (drop (length c - length a) c)) = zip (rev a) (rev (drop (length c - length a) c))"
    using ld by (simp only: zip_rev)
  then have "rev (zip a (drop (length c - length a) c)) = zip (rev a) (take (length a) (rev c))"
    by (simp only: rd)
  then have r: "rev (bidx a c) = map2 ?f (rev a) (take (length (rev a)) (rev c))"
    by (simp add: bidx_def rev_map)
  have "list_all2 (<) (rev (bidx a c)) (rev a)"
    using * by (simp only: r)
  then have "list_all2 (<) (bidx a c) a"
    by (simp only: list_all2_rev)
  then show ?thesis by (simp add: valid_index_def)
qed

lemma bidx_broadcast_valid2:
  assumes "broadcast_shapes a b = Some bs" "valid_index bs c"
  shows "valid_index b (bidx b c)"
  using assms bidx_broadcast_valid broadcast_shapes_commute by metis

lemma wrap_dim_m2: "2 \<le> n \<Longrightarrow> wrap_dim (- 2) n = Inr (n - 2)"
  by (auto simp: wrap_dim_def intro!: nat_eq_iff[THEN iffD2])

lemma swap_at_last2_shape: "swap_at (length b) (Suc (length b)) (b @ [n, m]) = b @ [m, n]"
  by (simp add: swap_at_def nth_append list_update_append)

lemma swap_at_last2_index:
  "length c = l \<Longrightarrow> swap_at l (Suc l) (c @ [i, j]) = c @ [j, i]"
  by (auto simp: swap_at_def nth_append list_update_append)

lemma swap_at_commute: "swap_at i j xs = swap_at j i xs"
  by (cases "i = j") (simp_all add: swap_at_def list_update_swap)

lemma transpose_t_last2:
  assumes "shape R = b @ [n, m]"
  shows "transpose_t (- 2) (- 1) R
     = Inr (build (b @ [m, n]) (\<lambda>idx. get R (swap_at (length b) (Suc (length b)) idx)))"
  using assms
  by (simp add: transpose_t_def ndim_def wrap_dim_m2 wrap_dim_m1 swap_at_last2_shape)

lemma transpose_t_last2':
  assumes "shape R = b @ [n, m]"
  shows "transpose_t (- 1) (- 2) R
     = Inr (build (b @ [m, n]) (\<lambda>idx. get R (swap_at (length b) (Suc (length b)) idx)))"
  using assms
  by (simp add: transpose_t_def ndim_def wrap_dim_m2 wrap_dim_m1 swap_at_last2_shape
      swap_at_commute[of "Suc (length b)"])

lemma matmul_batched:
  assumes "shape a = ba @ [n, m]" "shape b = bb @ [m, p]"
  shows "matmul a b =
     (case broadcast_shapes ba bb of
        None \<Rightarrow> Inl RuntimeError
      | Some bs \<Rightarrow>
          Inr (build (bs @ [n, p])
                (\<lambda>idx. sum_list (map (\<lambda>k. get a (bidx ba (take (length bs) idx) @ [idx ! length bs, k])
                                          * get b (bidx bb (take (length bs) idx) @ [k, idx ! Suc (length bs)]))
                                   [0..<m]))))"
proof -
  have a: "Tensor (ba @ [n, m]) (elems a) = a" and b: "Tensor (bb @ [m, p]) (elems b) = b"
    using assms by (metis tensor.collapse)+
  show ?thesis
    using assms
    by (simp add: matmul_def ndim_def Let_def butlast_append a b build_def split: option.split)
qed

lemma select2_last:
  assumes "shape R = bs @ [n, m]" "i < n" "j < m"
  shows "select2 i j R = Inr (build bs (\<lambda>idx. get R (idx @ [i, j])))"
  using assms by (simp add: select2_def ndim_def butlast_append)

lemma so3_rotation_angle_cos:
  assumes "shape R = bs @ [3, 3]"
  shows "so3_rotation_angle R eps True cb
     = Inr (build bs (\<lambda>idx. (get R (idx @ [0, 0]) + get R (idx @ [1, 1]) + get R (idx @ [2, 2]) - 1) * (1 / 2)))"
  using assms
  by (simp add: so3_rotation_angle_def ndim_def Let_def butlast_append select2_last[OF assms]
      add_build smap_build)

section \<open>The cosine of the relative angle of two rotations\<close>

lemma valid_index_snoc2:
  "valid_index s idx \<Longrightarrow> i < n \<Longrightarrow> j < m \<Longrightarrow> valid_index (s @ [n, m]) (idx @ [i, j])"
  by (simp add: valid_index_append valid_index_length)

lemma so3_relative_angle_cos:
  assumes s1: "shape R1 = b1 @ [3, 3]" and s2: "shape R2 = b2 @ [3, 3]"
  shows "so3_relative_angle R1 R2 eps True cb =
     (case broadcast_shapes b1 b2 of
        None \<Rightarrow> Inl RuntimeError
      | Some bs \<Rightarrow>
          Inr (build bs (\<lambda>idx.
                 (sum_list (map (\<lambda>i. sum_list (map (\<lambda>k. get R1 (bidx b1 idx @ [i, k])
                                                       * get R2 (bidx b2 idx @ [i, k])) [0..<3]))
                            [0..<3]) - 1) * (1 / 2))))"
proof (cases "broadcast_shapes b1 b2")
  case None
  have st: "shape (build (b2 @ [3, 3]) f) = b2 @ [3, 3]" for f by simp
  show ?thesis
    by (simp add: so3_relative_angle_def transpose_t_last2[OF s2] matmul_batched[OF s1 st] None)
next
  case (Some bs)
  let ?T = "build (b2 @ [3, 3]) (\<lambda>idx. get R2 (swap_at (length b2) (Suc (length b2)) idx))"
  let ?F = "\<lambda>idx. sum_list (map (\<lambda>k. get R1 (bidx b1 (take (length bs) idx) @ [idx ! length bs, k])
                                    * get ?T (bidx b2 (take (length bs) idx) @ [k, idx ! Suc (length bs)]))
                             [0..<3])"
  have st: "shape ?T = b2 @ [3, 3]" by simp
  have mm: "ebind (transpose_t (- 2) (- 1) R2) (matmul R1) = Inr (build (bs @ [3, 3]) ?F)"
    by (simp add: transpose_t_last2[OF s2] matmul_batched[OF s1 st] Some)
  have diag: "get (build (bs @ [3, 3]) ?F) (idx @ [i, i])
      = sum_list (map (\<lambda>k. get R1 (bidx b1 idx @ [i, k]) * get R2 (bidx b2 idx @ [i, k])) [0..<3])"
    if v: "valid_index bs idx" and i: "i < 3" for idx i
  proof -
    have l: "length idx = length bs" using v by (rule valid_index_length)
    have v2: "valid_index b2 (bidx b2 idx)" using Some v by (rule bidx_broadcast_valid2)
    have l2: "length (bidx b2 idx) = length b2" using v2 by (rule valid_index_length)
    have g: "get ?T (bidx b2 idx @ [k, i]) = get R2 (bidx b2 idx @ [i, k])" if "k < 3" for k
      using that i v2 by (simp add: get_build valid_index_snoc2 swap_at_last2_index[OF l2])
    have "get (build (bs @ [3, 3]) ?F) (idx @ [i, i]) = ?F (idx @ [i, i])"
      using v i by (intro get_build valid_index_snoc2)
    also have "\<dots> = sum_list (map (\<lambda>k. get R1 (bidx b1 idx @ [i, k]) * get ?T (bidx b2 idx @ [k, i])) [0..<3])"
      using l by (simp add: nth_append)
    also have "\<dots> = sum_list (map (\<lambda>k. get R1 (bidx b1 idx @ [i, k]) * get R2 (bidx b2 idx @ [i, k])) [0..<3])"
      by (intro arg_cong[where f=sum_list] map_cong refl) (simp add: g)
    finally show ?thesis .
  qed
  have sb: "shape (build (bs @ [3, 3]) ?F) = bs @ [3, 3]" by simp
  have "so3_relative_angle R1 R2 eps True cb
     = Inr (build bs (\<lambda>idx. (get (build (bs @ [3, 3]) ?F) (idx @ [0, 0])
                            + get (build (bs @ [3, 3]) ?F) (idx @ [1, 1])
                            + get (build (bs @ [3, 3]) ?F) (idx @ [2, 2]) - 1) * (1 / 2)))"
    unfolding so3_relative_angle_def mm ebind_Inr so3_rotation_angle_cos[OF sb] ..
  also have "build bs (\<lambda>idx. (get (build (bs @ [3, 3]) ?F) (idx @ [0, 0])
                            + get (build (bs @ [3, 3]) ?F) (idx @ [1, 1])
                            + get (build (bs @ [3, 3]) ?F) (idx @ [2, 2]) - 1) * (1 / 2))
     = build bs (\<lambda>idx.
                 (sum_list (map (\<lambda>i. sum_list (map (\<lambda>k. get R1 (bidx b1 idx @ [i, k])
                                                       * get R2 (bidx b2 idx @ [i, k])) [0..<3]))
                            [0..<3]) - 1) * (1 / 2))"
  proof (rule build_cong)
    fix idx assume v: "valid_index bs idx"
    have u: "[0..<3] = [0, 1, 2]" by (simp add: upt_rec)
    have d0: "get (build (bs @ [3, 3]) ?F) (idx @ [0, 0])
        = sum_list (map (\<lambda>k. get R1 (bidx b1 idx @ [0, k]) * get R2 (bidx b2 idx @ [0, k])) [0..<3])"
      by (rule diag[OF v]) simp
    have d1: "get (build (bs @ [3, 3]) ?F) (idx @ [1, 1])
        = sum_list (map (\<lambda>k. get R1 (bidx b1 idx @ [1, k]) * get R2 (bidx b2 idx @ [1, k])) [0..<3])"
      by (rule diag[OF v]) simp
    have d2: "get (build (bs @ [3, 3]) ?F) (idx @ [2, 2])
        = sum_list (map (\<lambda>k. get R1 (bidx b1 idx @ [2, k]) * get R2 (bidx b2 idx @ [2, k])) [0..<3])"
      by (rule diag[OF v]) simp
    have "sum_list (map (\<lambda>i. sum_list (map (\<lambda>k. get R1 (bidx b1 idx @ [i, k])
                                                       * get R2 (bidx b2 idx @ [i, k])) [0..<3])) [0, 1, 2])
        = get (build (bs @ [3, 3]) ?F) (idx @ [0, 0])
                            + get (build (bs @ [3, 3]) ?F) (idx @ [1, 1])
                            + get (build (bs @ [3, 3]) ?F) (idx @ [2, 2])"
      unfolding d0 d1 d2 by simp
    then show "(get (build (bs @ [3, 3]) ?F) (idx @ [0, 0])
                            + get (build (bs @ [3, 3]) ?F) (idx @ [1, 1])
                            + get (build (bs @ [3, 3]) ?F) (idx @ [2, 2]) - 1) * (1 / 2)
       = (sum_list (map (\<lambda>i. sum_list (map (\<lambda>k. get R1 (bidx b1 idx @ [i, k])
                                                       * get R2 (bidx b2 idx @ [i, k])) [0..<3]))
                            [0..<3]) - 1) * (1 / 2)"
      by (simp only: u)
  qed
  finally show ?thesis by (simp add: Some)
qed

text \<open>
  C9. For two batches \<open>R1\<close>, \<open>R2\<close> of 3x3 matrices,
  \<^verbatim>\<open>so3_relative_angle(R1, R2, cos_angle=True)\<close> equals
  \<^verbatim>\<open>so3_relative_angle(R2, R1, cos_angle=True)\<close>: both are \<open>(tr (R1 R2\<^sup>T) - 1) / 2\<close> per
  batch element when the batch shapes broadcast, and both raise the same error when
  they do not.
\<close>

theorem so3_relative_angle_cos_symmetric:
  assumes "shape R1 = b1 @ [3, 3]" "shape R2 = b2 @ [3, 3]"
  shows "so3_relative_angle R1 R2 eps True cos_bound = so3_relative_angle R2 R1 eps True cos_bound
       \<and> (\<forall>bs. broadcast_shapes b1 b2 = Some bs \<longrightarrow>
              (\<exists>r. so3_relative_angle R1 R2 eps True cos_bound = Inr r \<and> shape r = bs))"
proof -
  have "so3_relative_angle R1 R2 eps True cos_bound = so3_relative_angle R2 R1 eps True cos_bound"
    unfolding so3_relative_angle_cos[OF assms] so3_relative_angle_cos[OF assms(2,1)]
      broadcast_shapes_commute[of b2 b1]
    by (simp add: mult.commute split: option.split)
  moreover have "\<exists>r. so3_relative_angle R1 R2 eps True cos_bound = Inr r \<and> shape r = bs"
    if "broadcast_shapes b1 b2 = Some bs" for bs
    unfolding so3_relative_angle_cos[OF assms] using that by simp
  ultimately show ?thesis by blast
qed

theorem so3_relative_angle_cos_symmetric_witness:
  "shape (Tensor [3, 3] [0, - 1, 0, 1, 0, 0, 0, 0, 1]) = [] @ [3, 3]
   \<and> shape (Tensor [3, 3] [1, 0, 0, 0, 0, - 1, 0, 1, 0]) = [] @ [3, 3]
   \<and> so3_relative_angle (Tensor [3, 3] [0, - 1, 0, 1, 0, 0, 0, 0, 1])
        (Tensor [3, 3] [1, 0, 0, 0, 0, - 1, 0, 1, 0]) (1 / 10000) True (1 / 10000)
      = so3_relative_angle (Tensor [3, 3] [1, 0, 0, 0, 0, - 1, 0, 1, 0])
        (Tensor [3, 3] [0, - 1, 0, 1, 0, 0, 0, 0, 1]) (1 / 10000) True (1 / 10000)
   \<and> so3_relative_angle (Tensor [3, 3] [0, - 1, 0, 1, 0, 0, 0, 0, 1])
        (Tensor [3, 3] [1, 0, 0, 0, 0, - 1, 0, 1, 0]) (1 / 10000) True (1 / 10000)
      = Inr (Tensor [] [- 1 / 2])"
  using so3_relative_angle_cos_symmetric[of "Tensor [3, 3] [0, - 1, 0, 1, 0, 0, 0, 0, 1]" "[]"
      "Tensor [3, 3] [1, 0, 0, 0, 0, - 1, 0, 1, 0]" "[]" "1 / 10000" "1 / 10000"]
  by (simp add: so3_relative_angle_def so3_rotation_angle_def tensor_eval)

section \<open>Inverse transforms: the round trip\<close>

lemma indices_snoc_1: "indices (s @ [1]) = map (\<lambda>idx. idx @ [0]) (indices s)"
  by (induction s) (simp_all add: map_concat comp_def)

lemma drop_last_1_build: "Tensor s (elems (build (s @ [1]) F)) = build s (\<lambda>idx. F (idx @ [0]))"
  by (simp only: build_def tensor.sel indices_snoc_1 map_map comp_def)

lemma flat_index_snoc_1:
  "length idx = length s \<Longrightarrow> flat_index (s @ [1]) (idx @ [0]) = flat_index s idx"
proof (induction s arbitrary: idx)
  case Nil
  then show ?case by simp
next
  case (Cons n s)
  then obtain i r where "idx = i # r" "length r = length s" by (cases idx) auto
  then show ?case using Cons.IH[of r] by simp
qed

lemma get_snoc_1:
  "length idx = length s \<Longrightarrow> get (Tensor (s @ [1]) xs) (idx @ [0]) = get (Tensor s xs) idx"
  by (simp only: get_def tensor.sel flat_index_snoc_1)

lemma unsqueeze_last: "unsqueeze (- 1) t = Inr (Tensor (shape t @ [1]) (elems t))"
  by (simp add: unsqueeze_def ndim_def wrap_dim_m1)

lemma squeeze_last_1: "shape t = s @ [1] \<Longrightarrow> squeeze (- 1) t = Inr (Tensor s (elems t))"
  by (simp add: squeeze_def ndim_def wrap_dim_m1 nth_append)

lemma valid_index_3:
  "valid_index [a, b, c] idx = (\<exists>x y z. idx = [x, y, z] \<and> x < a \<and> y < b \<and> z < c)"
  by (auto simp: valid_index_Cons)

lemma valid_index_2:
  "valid_index [a, b] idx = (\<exists>x y. idx = [x, y] \<and> x < a \<and> y < b)"
  by (auto simp: valid_index_Cons)

lemma upt_3: "[0..<3] = [0, 1, 2]"
  by (simp add: upt_rec)

lemma get_I3: "i < 3 \<Longrightarrow> j < 3 \<Longrightarrow> get I3 [i, j] = (if i = j then 1 else 0)"
proof -
  assume "i < 3" "j < 3"
  then have "i \<in> {0, 1, 2}" "j \<in> {0, 1, 2}" by auto
  then show ?thesis by (auto simp: I3_def get_def)
qed

lemma swap_at_twice: "i < length xs \<Longrightarrow> j < length xs \<Longrightarrow> swap_at i j (swap_at i j xs) = xs"
  by (auto simp: swap_at_def list_eq_iff_nth_eq nth_list_update)

lemma orthonormalD:
  assumes "orthonormal R" "shape R = [B, 3, 3]" "b < B" "i < 3" "j < 3"
  shows "get R [b, i, 0] * get R [b, j, 0] + get R [b, i, 1] * get R [b, j, 1]
           + get R [b, i, 2] * get R [b, j, 2] = (if i = j then 1 else 0)"
proof -
  have "sum_list (map (\<lambda>k. get R ([b] @ [i, k]) * get R ([b] @ [j, k])) [0..<3])
           = (if i = j then 1 else 0)"
    using assms by (auto simp: orthonormal_def list_all_iff)
  then show ?thesis by (simp add: upt_3)
qed

lemma bidx_Nil [simp]: "bidx [] idx = []"
  by (simp add: bidx_def)

lemma broadcast_shapes_Nil [simp]: "broadcast_shapes s [] = Some s"
  by (cases "rev s") (simp_all add: broadcast_shapes_def)

lemma bidx_single: "b < B \<Longrightarrow> bidx [B] [b] = [b]"
  by (rule bidx_valid) simp

lemma matmul_identity:
  assumes wf: "wf R" and sh: "shape R = [B, 3, 3]"
  shows "matmul R I3 = Inr R"
proof -
  have shI: "shape I3 = [] @ [3, 3]" by (simp add: I3_def)
  have sh': "shape R = [B] @ [3, 3]" using sh by simp
  have "matmul R I3 = Inr (build ([B] @ [3, 3])
          (\<lambda>idx. sum_list (map (\<lambda>k. get R (bidx [B] (take (length [B]) idx) @ [idx ! length [B], k])
                                      * get I3 (bidx [] (take (length [B]) idx) @ [k, idx ! Suc (length [B])]))
                            [0..<3])))"
    by (simp only: matmul_batched[OF sh' shI] broadcast_shapes_Nil option.case)
  also have "build ([B] @ [3, 3])
          (\<lambda>idx. sum_list (map (\<lambda>k. get R (bidx [B] (take (length [B]) idx) @ [idx ! length [B], k])
                                      * get I3 (bidx [] (take (length [B]) idx) @ [k, idx ! Suc (length [B])]))
                            [0..<3]))
      = build ([B] @ [3, 3]) (get R)"
  proof (rule build_cong)
    fix idx assume "valid_index ([B] @ [3, 3]) idx"
    then obtain b i j where idx: "idx = [b, i, j]" "b < B" "i < 3" "j < 3"
      by (auto simp: valid_index_3)
    have "j \<in> {0, 1, 2}" using idx(4) by auto
    then show "sum_list (map (\<lambda>k. get R (bidx [B] (take (length [B]) idx) @ [idx ! length [B], k])
                                      * get I3 (bidx [] (take (length [B]) idx) @ [k, idx ! Suc (length [B])]))
                            [0..<3]) = get R idx"
      using idx by (auto simp: bidx_single upt_3 get_I3)
  qed
  also have "\<dots> = R"
    using build_get[OF wf] sh by simp
  finally show ?thesis .
qed

lemma matmul_column:
  assumes shR: "shape R = [B, 3, 3]" and sht: "shape t = [B, 3]"
  shows "ebind (ebind (unsqueeze 2 t) (matmul R)) (squeeze 2)
     = Inr (build [B, 3] (\<lambda>idx. get R (idx @ [0]) * get t [hd idx, 0]
                               + get R (idx @ [1]) * get t [hd idx, 1]
                               + get R (idx @ [2]) * get t [hd idx, 2]))"
proof -
  let ?c = "Tensor [B, 3, 1] (elems t)"
  have t: "Tensor [B, 3] (elems t) = t" using sht by (metis tensor.collapse)
  have u: "unsqueeze 2 t = Inr ?c"
    using sht by (simp add: unsqueeze_def ndim_def wrap_dim_def)
  have shR': "shape R = [B] @ [3, 3]" using shR by simp
  have shc: "shape ?c = [B] @ [3, 1]" by simp
  let ?F = "\<lambda>idx. sum_list (map (\<lambda>k. get R (bidx [B] (take (length [B]) idx) @ [idx ! length [B], k])
                                    * get ?c (bidx [B] (take (length [B]) idx) @ [k, idx ! Suc (length [B])]))
                             [0..<3])"
  have m: "matmul R ?c = Inr (build ([B, 3] @ [1]) ?F)"
    by (simp only: matmul_batched[OF shR' shc] broadcast_shapes_same option.case append_Cons append_Nil)
  have s: "squeeze 2 (build ([B, 3] @ [1]) ?F) = Inr (Tensor [B, 3] (elems (build ([B, 3] @ [1]) ?F)))"
    by (simp add: squeeze_def ndim_def wrap_dim_def)
  have "ebind (ebind (unsqueeze 2 t) (matmul R)) (squeeze 2)
      = Inr (build [B, 3] (\<lambda>idx. ?F (idx @ [0])))"
    by (simp only: u m s ebind_Inr drop_last_1_build)
  also have "build [B, 3] (\<lambda>idx. ?F (idx @ [0]))
      = build [B, 3] (\<lambda>idx. get R (idx @ [0]) * get t [hd idx, 0]
                               + get R (idx @ [1]) * get t [hd idx, 1]
                               + get R (idx @ [2]) * get t [hd idx, 2])"
  proof (rule build_cong)
    fix idx assume "valid_index [B, 3] idx"
    then obtain b i where idx: "idx = [b, i]" "b < B" "i < 3"
      by (auto simp: valid_index_2)
    have g: "get ?c [b, k, 0] = get t [b, k]" for k
      using get_snoc_1[of "[b, k]" "[B, 3]" "elems t"] by (simp add: t)
    have g': "get (Tensor [B, 3, Suc 0] (elems t)) [b, k, 0] = get t [b, k]" for k
      using g[of k] by simp
    show "?F (idx @ [0]) = get R (idx @ [0]) * get t [hd idx, 0]
                               + get R (idx @ [1]) * get t [hd idx, 1]
                               + get R (idx @ [2]) * get t [hd idx, 2]"
      using idx by (simp add: bidx_single upt_3 g')
  qed
  finally show ?thesis .
qed

lemma matmul_zero_column:
  assumes shR: "shape R = [B, 3, 3]"
  shows "ebind (ebind (unsqueeze (- 1) Z3) (matmul R)) (squeeze (- 1)) = Inr (build [B, 3] (\<lambda>_. 0))"
proof -
  let ?c = "Tensor [3, 1] [0, 0, 0]"
  have u: "unsqueeze (- 1) Z3 = Inr ?c"
    by (simp add: unsqueeze_last Z3_def)
  have shR': "shape R = [B] @ [3, 3]" using shR by simp
  have shc: "shape ?c = [] @ [3, 1]" by simp
  let ?F = "\<lambda>idx. sum_list (map (\<lambda>k. get R (bidx [B] (take (length [B]) idx) @ [idx ! length [B], k])
                                    * get ?c (bidx [] (take (length [B]) idx) @ [k, idx ! Suc (length [B])]))
                             [0..<3])"
  have m: "matmul R ?c = Inr (build ([B, 3] @ [1]) ?F)"
    by (simp only: matmul_batched[OF shR' shc] broadcast_shapes_Nil option.case append_Cons append_Nil)
  have s: "squeeze (- 1) (build ([B, 3] @ [1]) ?F) = Inr (Tensor [B, 3] (elems (build ([B, 3] @ [1]) ?F)))"
    by (rule squeeze_last_1) simp
  have "ebind (ebind (unsqueeze (- 1) Z3) (matmul R)) (squeeze (- 1))
      = Inr (build [B, 3] (\<lambda>idx. ?F (idx @ [0])))"
    by (simp only: u m s ebind_Inr drop_last_1_build)
  also have "build [B, 3] (\<lambda>idx. ?F (idx @ [0])) = build [B, 3] (\<lambda>_. 0)"
  proof (rule build_cong)
    fix idx assume "valid_index [B, 3] idx"
    then obtain b i where idx: "idx = [b, i]" "b < B" "i < 3"
      by (auto simp: valid_index_2)
    show "?F (idx @ [0]) = 0"
      using idx by (simp add: upt_3 get_def)
  qed
  finally show ?thesis .
qed

lemma multiply_inv_transform_roundtrip_batched:
  assumes wfR: "wf R_wl" and shR: "shape R_wl = [B, 3, 3]"
    and wft: "wf t_wl" and sht: "shape t_wl = [B, 3]"
    and orth: "orthonormal R_wl"
    and shRl: "shape R_lw = [B, 3, 3]"
    and Rl: "\<And>b i j. b < B \<Longrightarrow> i < 3 \<Longrightarrow> j < 3 \<Longrightarrow> get R_lw [b, i, j] = get R_wl [b, j, i]"
    and shtl: "shape t_lw = [B, 3]"
    and tl: "\<And>b i. b < B \<Longrightarrow> i < 3 \<Longrightarrow>
               get t_lw [b, i] = - (get R_wl [b, 0, i] * get t_wl [b, 0]
                                    + get R_wl [b, 1, i] * get t_wl [b, 1]
                                    + get R_wl [b, 2, i] * get t_wl [b, 2])"
  shows "multiply_inv_transform (d, R_lw) (d, t_lw) (d, I3) (d, Z3) = Inr ((d, R_wl), (d, t_wl))"
proof -
  have shRl': "shape R_lw = [B] @ [3, 3]" using shRl by simp
  have "transpose_t (- 1) (- 2) R_lw
      = Inr (build ([B] @ [3, 3]) (\<lambda>idx. get R_lw (swap_at (length [B]) (Suc (length [B])) idx)))"
    by (rule transpose_t_last2'[OF shRl'])
  also have "build ([B] @ [3, 3]) (\<lambda>idx. get R_lw (swap_at (length [B]) (Suc (length [B])) idx))
      = build ([B] @ [3, 3]) (get R_wl)"
  proof (rule build_cong)
    fix idx assume "valid_index ([B] @ [3, 3]) idx"
    then obtain b i j where idx: "idx = [b, i, j]" "b < B" "i < 3" "j < 3"
      by (auto simp: valid_index_3)
    show "get R_lw (swap_at (length [B]) (Suc (length [B])) idx) = get R_wl idx"
      using idx Rl[of b j i] by (simp add: swap_at_def)
  qed
  also have "\<dots> = R_wl"
    using build_get[OF wfR] shR by simp
  finally have tr: "transpose_t (- 1) (- 2) R_lw = Inr R_wl" .
  have rc: "matmul R_wl I3 = Inr R_wl"
    by (rule matmul_identity[OF wfR shR])
  have "lift1 neg (ebind (ebind (unsqueeze 2 t_lw) (matmul R_wl)) (squeeze 2))
      = Inr (build [B, 3] (\<lambda>idx. - (get R_wl (idx @ [0]) * get t_lw [hd idx, 0]
                               + get R_wl (idx @ [1]) * get t_lw [hd idx, 1]
                               + get R_wl (idx @ [2]) * get t_lw [hd idx, 2])))"
    by (simp only: matmul_column[OF shR shtl] lift1_Inr neg_def smap_build)
  also have "build [B, 3] (\<lambda>idx. - (get R_wl (idx @ [0]) * get t_lw [hd idx, 0]
                               + get R_wl (idx @ [1]) * get t_lw [hd idx, 1]
                               + get R_wl (idx @ [2]) * get t_lw [hd idx, 2]))
      = build [B, 3] (get t_wl)"
  proof (rule build_cong)
    fix idx assume "valid_index [B, 3] idx"
    then obtain b i where idx: "idx = [b, i]" "b < B" "i < 3"
      by (auto simp: valid_index_2)
    let ?r = "\<lambda>i k. get R_wl [b, i, k]" and ?t = "\<lambda>j. get t_wl [b, j]"
    have o: "?r i 0 * ?r j 0 + ?r i 1 * ?r j 1 + ?r i 2 * ?r j 2 = (if i = j then 1 else 0)"
      if "j < 3" for j
      by (rule orthonormalD[OF orth shR idx(2,3) that])
    have o0: "?r i 0 * ?r 0 0 + ?r i 1 * ?r 0 1 + ?r i 2 * ?r 0 2 = (if i = 0 then 1 else 0)"
      by (rule o) simp
    have o1: "?r i 0 * ?r 1 0 + ?r i 1 * ?r 1 1 + ?r i 2 * ?r 1 2 = (if i = 1 then 1 else 0)"
      by (rule o) simp
    have o2: "?r i 0 * ?r 2 0 + ?r i 1 * ?r 2 1 + ?r i 2 * ?r 2 2 = (if i = 2 then 1 else 0)"
      by (rule o) simp
    have "- (?r i 0 * (- (?r 0 0 * ?t 0 + ?r 1 0 * ?t 1 + ?r 2 0 * ?t 2))
           + ?r i 1 * (- (?r 0 1 * ?t 0 + ?r 1 1 * ?t 1 + ?r 2 1 * ?t 2))
           + ?r i 2 * (- (?r 0 2 * ?t 0 + ?r 1 2 * ?t 1 + ?r 2 2 * ?t 2)))
        = (?r i 0 * ?r 0 0 + ?r i 1 * ?r 0 1 + ?r i 2 * ?r 0 2) * ?t 0
        + (?r i 0 * ?r 1 0 + ?r i 1 * ?r 1 1 + ?r i 2 * ?r 1 2) * ?t 1
        + (?r i 0 * ?r 2 0 + ?r i 1 * ?r 2 1 + ?r i 2 * ?r 2 2) * ?t 2"
      by (simp add: algebra_simps)
    also have "\<dots> = (if i = 0 then 1 else 0) * ?t 0 + (if i = 1 then 1 else 0) * ?t 1
                   + (if i = 2 then 1 else 0) * ?t 2"
      by (simp only: o0 o1 o2)
    also have "\<dots> = ?t i"
    proof -
      have "i \<in> {0, 1, 2}" using idx(3) by auto
      then show ?thesis by auto
    qed
    finally show "- (get R_wl (idx @ [0]) * get t_lw [hd idx, 0]
                               + get R_wl (idx @ [1]) * get t_lw [hd idx, 1]
                               + get R_wl (idx @ [2]) * get t_lw [hd idx, 2]) = get t_wl idx"
      using idx by (simp add: tl)
  qed
  also have "\<dots> = t_wl"
    using build_get[OF wft] sht by simp
  finally have wtl: "lift1 neg (ebind (ebind (unsqueeze 2 t_lw) (matmul R_wl)) (squeeze 2)) = Inr t_wl" .
  have "add (build [B, 3] (\<lambda>_. 0)) t_wl = add (build [B, 3] (\<lambda>_. 0)) (build [B, 3] (get t_wl))"
    using build_get[OF wft] sht by simp
  also have "\<dots> = Inr (build [B, 3] (get t_wl))"
    by (simp add: add_build)
  also have "\<dots> = Inr t_wl"
    using build_get[OF wft] sht by simp
  finally have ad: "add (build [B, 3] (\<lambda>_. 0)) t_wl = Inr t_wl" .
  have zc: "ebind (ebind (unsqueeze (- 1) Z3) (matmul R_wl)) (squeeze (- 1)) = Inr (build [B, 3] (\<lambda>_. 0))"
    by (rule matmul_zero_column[OF shR])
  have nd: "ndim (build [B, 3] f) = ndim t_wl" for f
    using sht by (simp add: ndim_def)
  have rt: "result_type (d, build [B, 3] f) (d, t_wl) = d" for f
    by (cases d) (simp_all add: result_type_def nd)
  have u2: "ebind (ebind (unsqueeze_d 2 (d, t_lw)) (matmul_d (d, R_wl))) (squeeze_d 2)
      = lift1 (Pair d) (ebind (ebind (unsqueeze 2 t_lw) (matmul R_wl)) (squeeze 2))"
    by (cases "unsqueeze 2 t_lw"; cases "ebind (unsqueeze 2 t_lw) (matmul R_wl)")
       (simp_all add: unsqueeze_d_def matmul_d_def squeeze_d_def lift1_def)
  have um: "ebind (ebind (unsqueeze_d (- 1) (d, Z3)) (matmul_d (d, R_wl))) (squeeze_d (- 1))
      = lift1 (Pair d) (ebind (ebind (unsqueeze (- 1) Z3) (matmul R_wl)) (squeeze (- 1)))"
    by (cases "unsqueeze (- 1) Z3"; cases "ebind (unsqueeze (- 1) Z3) (matmul R_wl)")
       (simp_all add: unsqueeze_d_def matmul_d_def squeeze_d_def lift1_def)
  have wtl': "lift1 neg_d (ebind (ebind (unsqueeze_d 2 (d, t_lw)) (matmul_d (d, R_wl))) (squeeze_d 2))
      = Inr (d, t_wl)"
  proof -
    from wtl obtain v where v: "ebind (ebind (unsqueeze 2 t_lw) (matmul R_wl)) (squeeze 2) = Inr v"
      and nv: "neg v = t_wl"
      by (cases "ebind (ebind (unsqueeze 2 t_lw) (matmul R_wl)) (squeeze 2)") (simp_all add: lift1_def)
    show ?thesis by (simp add: u2 v nv neg_d_def)
  qed
  show ?thesis
    by (simp add: multiply_inv_transform_def transpose_d_def tr matmul_d_def rc wtl' um zc add_d_def ad rt
        scripted_def)
qed

text \<open>
  C8 (the code departs from the claim). The claim has
  \<^verbatim>\<open>multiply_inv_transform(R_lw, t_lw, I, 0)\<close> return \<open>(R_wl, t_wl)\<close> for every pair of
  rigid transforms related by inversion. For transforms with exactly one leading batch
  dimension this holds (lemma \<open>multiply_inv_transform_roundtrip_batched\<close> above). For a
  single transform, a 3x3 rotation and a 3-vector with no batch dimension, the call
  raises: \<^verbatim>\<open>l_trans_w.unsqueeze(2)\<close> asks for dimension 2 of a one-dimensional tensor. The
  input below is the inverse of the quarter turn about the z axis with translation
  \<open>(1, 2, 3)\<close>; the same transform with a batch dimension of size 1 round-trips.
\<close>

theorem multiply_inv_transform_roundtrip_unbatched:
  "multiply_inv_transform (Float32, Tensor [3, 3] [0, 1, 0, - 1, 0, 0, 0, 0, 1])
       (Float32, Tensor [3] [- 2, 1, - 3]) (Float32, I3) (Float32, Z3)
     = Inl RuntimeError
   \<and> multiply_inv_transform (Float32, Tensor [1, 3, 3] [0, 1, 0, - 1, 0, 0, 0, 0, 1])
       (Float32, Tensor [1, 3] [- 2, 1, - 3]) (Float32, I3) (Float32, Z3)
     = Inr ((Float32, Tensor [1, 3, 3] [0, - 1, 0, 1, 0, 0, 0, 0, 1]), (Float32, Tensor [1, 3] [1, 2, 3]))"
  by (simp add: multiply_inv_transform_def I3_def Z3_def dtensor_eval tensor_eval)

section \<open>Pose distances: the weights and the velocity term\<close>

text \<open>
  C1 (the code departs from the claim). With both velocities given, the claim has
  \<^verbatim>\<open>euclidean_distance\<close> return \<open>w_pos * ||x_batch - x_target|| + w_vpos * ||vel_batch - vel_target||\<close>.
  The function adds the velocity term to \<^verbatim>\<open>D\<close> and then returns \<^verbatim>\<open>w_pos * T_distance\<close>:
  for equal positions and velocities at distance 1, with both weights 1, it returns 0
  where the weighted sum is 1.
\<close>

theorem euclidean_distance_drops_velocity_term:
  "euclidean_distance (Tensor [1, 2] [0, 0]) (Tensor [1, 2] [0, 0])
       (Some (Tensor [1, 2] [1, 0])) (Some (Tensor [1, 2] [0, 0])) 1 0 1 0 False False
     = Inr (Tensor [1] [0])
   \<and> 1 * norm2 [0 - 0, 0 - 0] + 1 * norm2 [1 - 0, 0 - 0] = 1"
  by (simp add: euclidean_distance_def tensor_eval)

text \<open>
  C2 (the code departs from the claim). The claim has \<^verbatim>\<open>R3S3_distance\<close> weight the
  quaternion angle by \<open>w_rot\<close> and the position distance by \<open>w_pos\<close>. The function returns
  \<^verbatim>\<open>w_pos * R_distance + w_rot * T_distance\<close>. For two poses at the same position whose
  quaternions are orthogonal (relative angle \<open>pi / 2\<close>), with \<open>w_pos = 0\<close> and \<open>w_rot = 1\<close>,
  it returns 0 where the claimed value is \<open>pi / 2\<close>.
\<close>

theorem R3S3_distance_weights_swapped:
  "R3S3_distance (Tensor [7] [0, 0, 0, 1, 0, 0, 0]) (Tensor [7] [0, 0, 0, 0, 1, 0, 0]) 0 1
     = Inr (Tensor [1] [0])
   \<and> quaternion_relative_angle (Tensor [4] [1, 0, 0, 0]) (Tensor [1, 4] [0, 1, 0, 0]) (1 / 10000)
     = Inr (Tensor [1] [pi / 2])
   \<and> norm2 [0 - 0, 0 - 0, 0 - 0] = 0"
  by (simp add: R3S3_distance_def quaternion_relative_angle_def acos_eval tensor_eval)

section \<open>MinMaxScaler\<close>

text \<open>
  C3 (the code departs from the claim). The claim has the first \<^verbatim>\<open>scale\<close> of an instance
  with a reduction axis compute both bounds along that axis. On a torch tensor the
  minimum is taken along the axis, the maximum over the whole tensor (the test before
  it asks again whether \<^verbatim>\<open>self.max\<close> is unset, not whether \<^verbatim>\<open>self.dim\<close> is). For the
  2x2 tensor with rows \<open>(0, 10)\<close> and \<open>(1, 20)\<close> and \<open>dim = 0\<close> the cached maximum is the
  scalar 20, not \<open>(1, 20)\<close>, and the entry 1 of the first column scales to \<open>1 / 20\<close>, not
  to 1. On a numpy array of the same content both bounds are taken along the axis.
\<close>

theorem scale_torch_max_ignores_dim:
  "scale \<lparr>min_c = None, max_c = None, dim = Some 0\<rparr> (TorchTensor (Tensor [2, 2] [0, 10, 1, 20]))
     = Inr (Tensor [2, 2] [0, 0, 1 / 20, 1],
            \<lparr>min_c = Some (Tensor [2] [0, 10]), max_c = Some (Tensor [] [20]), dim = Some 0\<rparr>)
   \<and> scale \<lparr>min_c = None, max_c = None, dim = Some 0\<rparr> (NdArray (Tensor [2, 2] [0, 10, 1, 20]))
     = Inr (Tensor [2, 2] [0, 0, 1, 1],
            \<lparr>min_c = Some (Tensor [2] [0, 10]), max_c = Some (Tensor [2] [1, 20]), dim = Some 0\<rparr>)"
  by (simp add: scale_def np_min_def np_max_def tensor_eval)

section \<open>Rigid transforms and the number of batch dimensions\<close>

text \<open>
  C5 (the code departs from the claim). The claim has the three transform functions
  work for every number of leading batch dimensions. \<^verbatim>\<open>multiply_inv_transform\<close> turns
  \<^verbatim>\<open>l_trans_w\<close> into a column with \<^verbatim>\<open>unsqueeze(2)\<close>, where the line after it and
  \<^verbatim>\<open>multiply_transform\<close> use \<^verbatim>\<open>unsqueeze(-1)\<close>. With no batch dimension the call raises
  (dimension 2 of a one-dimensional tensor); with two batch dimensions the new axis is
  not the last one and the matrix product raises. \<^verbatim>\<open>multiply_transform\<close> and
  \<^verbatim>\<open>transform_point\<close> return on the same unbatched input.
\<close>

theorem multiply_inv_transform_batch_dims:
  "multiply_inv_transform (Float32, Tensor [3, 3] [1, 0, 0, 0, 1, 0, 0, 0, 1])
       (Float32, Tensor [3] [0, 0, 0])
       (Float32, Tensor [3, 3] [1, 0, 0, 0, 1, 0, 0, 0, 1]) (Float32, Tensor [3] [0, 0, 0])
     = Inl RuntimeError
   \<and> multiply_inv_transform (Float32, Tensor [1, 1, 3, 3] [1, 0, 0, 0, 1, 0, 0, 0, 1])
       (Float32, Tensor [1, 1, 3] [0, 0, 0])
       (Float32, Tensor [1, 1, 3, 3] [1, 0, 0, 0, 1, 0, 0, 0, 1]) (Float32, Tensor [1, 1, 3] [0, 0, 0])
     = Inl RuntimeError
   \<and> multiply_transform (Float32, Tensor [3, 3] [1, 0, 0, 0, 1, 0, 0, 0, 1])
       (Float32, Tensor [3] [0, 0, 0])
       (Float32, Tensor [3, 3] [1, 0, 0, 0, 1, 0, 0, 0, 1]) (Float32, Tensor [3] [0, 0, 0])
     = Inr ((Float32, Tensor [3, 3] [1, 0, 0, 0, 1, 0, 0, 0, 1]), (Float32, Tensor [3] [0, 0, 0]))
   \<and> transform_point (Float32, Tensor [3] [0, 0, 0])
       (Float32, Tensor [3, 3] [1, 0, 0, 0, 1, 0, 0, 0, 1]) (Float32, Tensor [3] [0, 0, 0])
     = Inr (Float32, Tensor [3] [0, 0, 0])"
  by (simp add: multiply_inv_transform_def multiply_transform_def transform_point_def
      dtensor_eval tensor_eval)

text \<open>
  The element types and the error class of the scripted functions, on concrete inputs:
  \<^verbatim>\<open>multiply_transform\<close> on double precision tensors raises, because \<^verbatim>\<open>l_trans_c.float()\<close>
  makes the translation single precision and the matrix product refuses the mix, while
  \<^verbatim>\<open>multiply_inv_transform\<close> (with a batch dimension) and \<^verbatim>\<open>transform_point\<close> keep double
  precision; a one-dimensional rotation makes \<^verbatim>\<open>transform_point\<close> raise a \<^verbatim>\<open>RuntimeError\<close>.
\<close>

lemma scripted_transforms_element_types:
  "multiply_transform (Float64, Tensor [3, 3] [1, 0, 0, 0, 1, 0, 0, 0, 1])
       (Float64, Tensor [3] [0, 0, 0])
       (Float64, Tensor [3, 3] [1, 0, 0, 0, 1, 0, 0, 0, 1]) (Float64, Tensor [3] [0, 0, 0])
     = Inl RuntimeError
   \<and> multiply_transform (Float32, Tensor [3, 3] [1, 0, 0, 0, 1, 0, 0, 0, 1])
       (Float64, Tensor [3] [0, 0, 0])
       (Float32, Tensor [3, 3] [1, 0, 0, 0, 1, 0, 0, 0, 1]) (Float64, Tensor [3] [1, 2, 3])
     = Inr ((Float32, Tensor [3, 3] [1, 0, 0, 0, 1, 0, 0, 0, 1]), (Float64, Tensor [3] [1, 2, 3]))
   \<and> transform_point (Float64, Tensor [3] [1, 2, 3])
       (Float64, Tensor [3, 3] [0, - 1, 0, 1, 0, 0, 0, 0, 1]) (Float64, Tensor [3] [0, 0, 0])
     = Inr (Float64, Tensor [3] [- 2, 1, 3])
   \<and> transform_point (Float32, Tensor [3] [1, 2, 3]) (Float32, Tensor [3] [1, 0, 0])
       (Float32, Tensor [3] [0, 0, 0])
     = Inl RuntimeError"
  by (simp add: multiply_transform_def transform_point_def dtensor_eval tensor_eval)

end
